theory Spec2Isabelle
  imports Complex_Main "HOL-Library.Word" "HOL-Library.Sublist"
begin

section \<open>ESP32miniFDR: sensor acquisition (barometer.cpp) and recorder (fdr.cpp)\<close>

text \<open>
  The two modules keep their state in file-level statics. Each module becomes a record of
  those statics, and every function takes the record and returns the updated one. Whatever
  the hardware answers during a call (bus acknowledgements, driver start-up results, sensor
  readings, file-system results, the millisecond clock) is not decided by the code; it is
  handed to the function as an environment record. Serial logging, the status light and the
  sensor's oversampling profile do not touch any static of the two modules and are left out.
\<close>

subsection \<open>The C type float\<close>

text \<open>
  A float is either not-a-number or a number, and a number is a real. Every arithmetic
  operation computes the exact real result and rounds it to binary32: to the nearest real
  with a 24-bit significand, a tie going to the even significand. \<open>ulp32 x\<close> is the distance
  between neighbouring binary32 numbers of the magnitude of \<open>x\<close>, and \<open>rne\<close> rounds a real to
  the nearest integer, a tie to the even one. The exponent is not bounded here: overflow to
  an infinity and the coarser spacing of subnormal numbers (below \<open>2 powi (-126)\<close>) are
  outside this model, and so is the fusing of a product and a sum into one rounding. Every
  arithmetic operation with a NaN operand is NaN and every comparison with a NaN operand is
  false.
\<close>

datatype cfloat = NaN | Val real

definition rne :: "real \<Rightarrow> int" where
  "rne y = (let f = \<lfloor>y\<rfloor>
            in if y - of_int f < 1 / 2 then f
               else if 1 / 2 < y - of_int f then f + 1
               else if even f then f else f + 1)"

definition ulp32 :: "real \<Rightarrow> real" where
  "ulp32 x = 2 powi (\<lfloor>log 2 \<bar>x\<bar>\<rfloor> - 23)"

definition round32 :: "real \<Rightarrow> real" where
  "round32 x = (if x = 0 then 0 else of_int (rne (x / ulp32 x)) * ulp32 x)"

fun isnan :: "cfloat \<Rightarrow> bool" where
  "isnan NaN = True"
| "isnan (Val x) = False"

fun fadd :: "cfloat \<Rightarrow> cfloat \<Rightarrow> cfloat" where
  "fadd (Val a) (Val b) = Val (round32 (a + b))"
| "fadd a b = NaN"

fun fsub :: "cfloat \<Rightarrow> cfloat \<Rightarrow> cfloat" where
  "fsub (Val a) (Val b) = Val (round32 (a - b))"
| "fsub a b = NaN"

fun fmul :: "cfloat \<Rightarrow> cfloat \<Rightarrow> cfloat" where
  "fmul (Val a) (Val b) = Val (round32 (a * b))"
| "fmul a b = NaN"

text \<open>Division is only ever by the constant 100.0F; a zero divisor is given NaN here.\<close>

fun fdiv :: "cfloat \<Rightarrow> cfloat \<Rightarrow> cfloat" where
  "fdiv (Val a) (Val b) = (if b = 0 then NaN else Val (round32 (a / b)))"
| "fdiv a b = NaN"

fun fle :: "cfloat \<Rightarrow> cfloat \<Rightarrow> bool" where
  "fle (Val a) (Val b) = (a \<le> b)"
| "fle a b = False"

definition fge :: "cfloat \<Rightarrow> cfloat \<Rightarrow> bool" where
  "fge a b = fle b a"

subsection \<open>barometer.cpp: constants and statics\<close>

definition BME280_ADDRESS_PRIMARY :: nat where
  "BME280_ADDRESS_PRIMARY = 0x76"

definition BME280_ADDRESS_SECONDARY :: nat where
  "BME280_ADDRESS_SECONDARY = 0x77"

definition BME280_CHIP_ID :: "8 word" where
  "BME280_CHIP_ID = 0x58"

definition BAD_READS_MAX :: int where
  "BAD_READS_MAX = 3"

definition PRESSURE_EMA_ALPHA :: cfloat where
  "PRESSURE_EMA_ALPHA = Val 0.25"

definition TEMPERATURE_MIN :: cfloat where
  "TEMPERATURE_MIN = Val (- 40)"

definition TEMPERATURE_MAX :: cfloat where
  "TEMPERATURE_MAX = Val 85"

definition PRESSURE_MIN :: cfloat where
  "PRESSURE_MIN = Val 300"

definition PRESSURE_MAX :: cfloat where
  "PRESSURE_MAX = Val 1100"

text \<open>
  The statics of barometer.cpp. \<open>bme_ok\<close> false is the state in which a bus scan is
  required; \<open>bme_ok\<close> true with \<open>bmp_used\<close> false is the BME280 (primary) driver active,
  with \<open>bmp_used\<close> true the BMP280 (fallback) driver active. \<open>bad_read_count\<close> is a C int;
  it never leaves 0..3, so it is an unbounded integer here.
\<close>

record baro_state =
  bme_ok :: bool
  bmp_used :: bool
  bad_read_count :: int
  lastTemp :: cfloat
  lastPressure :: cfloat
  pressure_ema :: cfloat
  deviceCount :: nat

text \<open>The static initialisers: the state at boot, before \<open>barometer_init\<close>.\<close>

definition baro_boot :: baro_state where
  "baro_boot = \<lparr> bme_ok = False, bmp_used = False, bad_read_count = 0, lastTemp = NaN,
     lastPressure = NaN, pressure_ema = NaN, deviceCount = 0 \<rparr>"

text \<open>
  What the bus and the two drivers answer during one call of \<open>barometer_init\<close> or
  \<open>barometer_process\<close>. \<open>bme_begin k a\<close> is the result of the k-th call (from 0) of
  \<open>bme.begin(a)\<close> within the call; \<open>chip_id_reg a\<close> is the byte read back from register
  0xD0 of address \<open>a\<close>, or None when \<open>Wire.available()\<close> is 0. Addresses and the scan counter
  are bytes in the source; they stay below 120, so they are naturals here.
\<close>

record baro_env =
  i2c_ack :: "nat \<Rightarrow> bool"
  bme_begin :: "nat \<Rightarrow> nat \<Rightarrow> bool"
  bmp_begin :: "nat \<Rightarrow> bool"
  chip_id_reg :: "nat \<Rightarrow> 8 word option"
  bme_readTemperature :: cfloat
  bme_readPressure :: cfloat
  bmp_readTemperature :: cfloat
  bmp_readPressure :: cfloat

text \<open>
  The scan's probe attempts are recorded, in the order the code makes them, in a list that
  is threaded beside the state. The list is an observation only: nothing reads it.
\<close>

datatype probe = BME280_at nat | ChipID_at nat | BMP280_at nat

subsection \<open>barometer.cpp: helpers\<close>

definition validateSensorReadings :: "cfloat \<Rightarrow> cfloat \<Rightarrow> bool" where
  "validateSensorReadings temperature pressure =
     ((fge temperature TEMPERATURE_MIN \<and> fle temperature TEMPERATURE_MAX) \<and>
      (fge pressure PRESSURE_MIN \<and> fle pressure PRESSURE_MAX))"

definition initializePressureEMA :: "cfloat \<Rightarrow> baro_state \<Rightarrow> baro_state" where
  "initializePressureEMA initial_pressure s =
     (if isnan (pressure_ema s) then s\<lparr>pressure_ema := initial_pressure\<rparr> else s)"

definition updatePressureEMA :: "cfloat \<Rightarrow> baro_state \<Rightarrow> baro_state" where
  "updatePressureEMA raw_pressure s =
     s\<lparr>pressure_ema :=
         fadd (fmul PRESSURE_EMA_ALPHA raw_pressure)
              (fmul (fsub (Val 1) PRESSURE_EMA_ALPHA) (pressure_ema s))\<rparr>"

definition attemptBME280Init ::
  "baro_env \<Rightarrow> nat \<Rightarrow> nat \<Rightarrow> baro_state \<times> probe list \<Rightarrow> bool \<times> baro_state \<times> probe list" where
  "attemptBME280Init e k address st =
     (case st of (s, tr) \<Rightarrow>
        if bme_begin e k address
        then (True, s\<lparr>bme_ok := True, bmp_used := False\<rparr>, tr @ [BME280_at address])
        else (False, s, tr @ [BME280_at address]))"

definition attemptBMP280Init ::
  "baro_env \<Rightarrow> nat \<Rightarrow> baro_state \<times> probe list \<Rightarrow> bool \<times> baro_state \<times> probe list" where
  "attemptBMP280Init e address st =
     (case st of (s, tr) \<Rightarrow>
        if bmp_begin e address
        then (True, s\<lparr>bme_ok := True, bmp_used := True\<rparr>, tr @ [BMP280_at address])
        else (False, s, tr @ [BMP280_at address]))"

text \<open>\<open>readChipID\<close> leaves the caller's \<open>chipid\<close> as it was when no byte is available.\<close>

definition readChipID ::
  "baro_env \<Rightarrow> nat \<Rightarrow> 8 word \<Rightarrow> baro_state \<times> probe list \<Rightarrow> bool \<times> 8 word \<times> baro_state \<times> probe list" where
  "readChipID e address chipid st =
     (case st of (s, tr) \<Rightarrow>
        (case chip_id_reg e address of
           None \<Rightarrow> (False, chipid, s, tr @ [ChipID_at address])
         | Some v \<Rightarrow> (True, v, s, tr @ [ChipID_at address])))"

subsection \<open>barometer.cpp: the bus scan\<close>

text \<open>
  The body of \<open>if (i == BME280_ADDRESS_PRIMARY && !bme_ok)\<close> in \<open>scanAndTryInit\<close>. The first
  component of the result is True when the body leaves the loop through \<open>break\<close>. The body
  runs at most once per scan, so its three \<open>bme.begin\<close> calls are calls 0, 1 and 2.
\<close>

definition probePrimary ::
  "baro_env \<Rightarrow> 8 word \<Rightarrow> baro_state \<times> probe list \<Rightarrow> bool \<times> 8 word \<times> baro_state \<times> probe list" where
  "probePrimary e chipid st =
     (case attemptBME280Init e 0 BME280_ADDRESS_PRIMARY st of
        (True, st1) \<Rightarrow> (True, chipid, st1)
      | (False, st1) \<Rightarrow>
          (case readChipID e BME280_ADDRESS_PRIMARY chipid st1 of
             (got, chipid1, st2) \<Rightarrow>
               (case attemptBME280Init e 1 BME280_ADDRESS_PRIMARY st2 of
                  (True, st3) \<Rightarrow> (True, chipid1, st3)
                | (False, st3) \<Rightarrow>
                    (case attemptBME280Init e 2 BME280_ADDRESS_SECONDARY st3 of
                       (True, st4) \<Rightarrow> (True, chipid1, st4)
                     | (False, st4) \<Rightarrow>
                         if chipid1 = BME280_CHIP_ID
                         then (case attemptBMP280Init e BME280_ADDRESS_PRIMARY st4 of
                                 (True, st5) \<Rightarrow> (True, chipid1, st5)
                               | (False, st5) \<Rightarrow> (False, chipid1, st5))
                         else (False, chipid1, st4)))))"

text \<open>
  The loop \<open>for (byte i = 1; i < 120; i++)\<close> over the addresses still to visit, with the
  locals \<open>count\<close> and \<open>chipid\<close>. A \<open>break\<close> ends the recursion.
\<close>

fun scan_loop ::
  "baro_env \<Rightarrow> nat list \<Rightarrow> nat \<Rightarrow> 8 word \<Rightarrow> baro_state \<times> probe list \<Rightarrow> nat \<times> baro_state \<times> probe list" where
  "scan_loop e [] count chipid st = (count, st)"
| "scan_loop e (i # rest) count chipid st =
     (if i2c_ack e i then
        (if i = BME280_ADDRESS_PRIMARY \<and> \<not> bme_ok (fst st) then
           (case probePrimary e chipid st of
              (True, chipid1, st1) \<Rightarrow> (count + 1, st1)
            | (False, chipid1, st1) \<Rightarrow> scan_loop e rest (count + 1) chipid1 st1)
         else scan_loop e rest (count + 1) chipid st)
      else scan_loop e rest count chipid st)"

definition scanAndTryInit :: "baro_env \<Rightarrow> baro_state \<Rightarrow> baro_state \<times> probe list" where
  "scanAndTryInit e s =
     (case scan_loop e [1..<120] 0 0 (s, []) of
        (count, s1, tr) \<Rightarrow> (s1\<lparr>deviceCount := count\<rparr>, tr))"

subsection \<open>barometer.cpp: public functions\<close>

definition barometer_init :: "baro_env \<Rightarrow> baro_state \<Rightarrow> baro_state" where
  "barometer_init e s =
     s\<lparr>bme_ok := bme_begin e 0 BME280_ADDRESS_PRIMARY, bmp_used := False, bad_read_count := 0,
       lastTemp := NaN, lastPressure := NaN, deviceCount := 0\<rparr>"

text \<open>The two locals of \<open>barometer_process\<close>, read from the driver in use.\<close>

definition read_temperature :: "baro_env \<Rightarrow> baro_state \<Rightarrow> cfloat" where
  "read_temperature e s = (if bmp_used s then bmp_readTemperature e else bme_readTemperature e)"

definition read_raw_pressure :: "baro_env \<Rightarrow> baro_state \<Rightarrow> cfloat" where
  "read_raw_pressure e s =
     (if bmp_used s then fdiv (bmp_readPressure e) (Val 100) else fdiv (bme_readPressure e) (Val 100))"

definition barometer_process :: "baro_env \<Rightarrow> baro_state \<Rightarrow> baro_state" where
  "barometer_process e s =
     (if \<not> bme_ok s then fst (scanAndTryInit e s)
      else
        (let temperature = read_temperature e s;
             raw_pressure = read_raw_pressure e s;
             s1 = initializePressureEMA raw_pressure s;
             s2 = updatePressureEMA raw_pressure s1;
             s3 = s2\<lparr>lastTemp := temperature, lastPressure := pressure_ema s2\<rparr>
         in if validateSensorReadings temperature raw_pressure
            then s3\<lparr>bad_read_count := 0\<rparr>
            else
              (let s4 = s3\<lparr>bad_read_count := bad_read_count s3 + 1\<rparr>
               in if bad_read_count s4 \<ge> BAD_READS_MAX
                  then s4\<lparr>bme_ok := False, bmp_used := False, bad_read_count := 0\<rparr>
                  else s4)))"

definition barometer_isReady :: "baro_state \<Rightarrow> bool" where
  "barometer_isReady s = bme_ok s"

definition barometer_isBMP :: "baro_state \<Rightarrow> bool" where
  "barometer_isBMP s = bmp_used s"

definition barometer_getTemperature :: "baro_state \<Rightarrow> cfloat" where
  "barometer_getTemperature s = lastTemp s"

definition barometer_getPressure :: "baro_state \<Rightarrow> cfloat" where
  "barometer_getPressure s = lastPressure s"

subsection \<open>fdr.cpp: constants and statics\<close>

type_synonym u32 = "32 word"

text \<open>The header is written with \<open>println\<close>, which ends the line with CR LF.\<close>

definition FDR_HEADER :: string where
  "FDR_HEADER = ''timestamp_s,pressure_hpa''"

definition CRLF :: string where
  "CRLF = [CHR 0x0D, CHR 0x0A]"

definition DEFAULT_SAMPLE_INTERVAL_MS :: u32 where
  "DEFAULT_SAMPLE_INTERVAL_MS = 1000"

definition MAX_SAMPLES_PER_SEC :: u32 where
  "MAX_SAMPLES_PER_SEC = 50"

definition BUFFER_FLUSH_THRESHOLD :: nat where
  "BUFFER_FLUSH_THRESHOLD = 1024"

definition BUFFER_FLUSH_INTERVAL_MS :: u32 where
  "BUFFER_FLUSH_INTERVAL_MS = 250"

text \<open>
  The statics of fdr.cpp, and with them the one thing of the flash file system the module
  works on: \<open>spiffs_fdr_csv\<close> is the content of the file at \<open>FDR_PATH\<close>, None when no such
  file exists. \<open>fdr_file\<close> is the truth value of the handle (\<open>if (fdr_file)\<close>): True while it
  is open. The handle is only ever opened for writing or appending, and every write is
  followed by \<open>flush()\<close>, so a write puts its bytes at the end of the file's content.
\<close>

record fdr_state =
  fdr_active :: bool
  fdr_end_ms :: u32
  fdr_start_ms :: u32
  last_sample_ms :: u32
  fdr_sample_interval_ms :: u32
  spiffs_mounted :: bool
  fdr_file :: bool
  fdr_write_buffer :: string
  last_flush_ms :: u32
  spiffs_fdr_csv :: "string option"

definition fdr_boot :: fdr_state where
  "fdr_boot = \<lparr> fdr_active = False, fdr_end_ms = 0, fdr_start_ms = 0, last_sample_ms = 0,
     fdr_sample_interval_ms = DEFAULT_SAMPLE_INTERVAL_MS, spiffs_mounted = False,
     fdr_file = False, fdr_write_buffer = [], last_flush_ms = 0, spiffs_fdr_csv = None \<rparr>"

text \<open>
  What the platform answers during one call of a recorder function:
  \<^item> \<open>spiffs_begin_plain\<close>, \<open>spiffs_begin_format\<close>: the results of \<open>SPIFFS.begin(false)\<close> and
    \<open>SPIFFS.begin(true)\<close>;
  \<^item> \<open>open_write_ok\<close>, \<open>open_append_ok\<close>, \<open>open_read_ok\<close>: whether \<open>SPIFFS.open\<close> in that
    mode returns a valid handle;
  \<^item> \<open>file_write_ret\<close>: the value \<open>fdr_file.write\<close> returns, the number of bytes it wrote;
  \<^item> \<open>millis k\<close>: the k-th reading (from 0) of the millisecond clock within the call;
  \<^item> \<open>format_line ms p\<close>: the text \<open>snprintf\<close> produces for \<open>"%.3f,%.2f\n"\<close> from the
    elapsed milliseconds \<open>ms\<close> (divided by 1000.0f) and the pressure \<open>p\<close>.
  \<open>SPIFFS.remove\<close> and the header's \<open>println\<close> are taken to succeed; opening for append
  creates a missing file, as the platform's file system does; a mount that only succeeds
  with formatting leaves no file.
\<close>

record fdr_env =
  spiffs_begin_plain :: bool
  spiffs_begin_format :: bool
  open_write_ok :: bool
  open_append_ok :: bool
  open_read_ok :: bool
  file_write_ret :: nat
  millis :: "nat \<Rightarrow> u32"
  format_line :: "u32 \<Rightarrow> cfloat \<Rightarrow> string"

text \<open>The three failures of \<open>fdr_streamFile\<close>, named as the specification names them:
  the 500 answer "SPIFFS mount failed", the 404 answer "no data", the 500 answer
  "cannot open file".\<close>

datatype export_error = StorageUnavailable | NoData | IoError

subsection \<open>fdr.cpp: helpers\<close>

definition file_content :: "fdr_state \<Rightarrow> string" where
  "file_content s = (case spiffs_fdr_csv s of None \<Rightarrow> [] | Some c \<Rightarrow> c)"

definition ensureSpiffs :: "fdr_env \<Rightarrow> fdr_state \<Rightarrow> bool \<times> fdr_state" where
  "ensureSpiffs e s =
     (if spiffs_mounted s then (True, s)
      else if spiffs_begin_plain e then (True, s\<lparr>spiffs_mounted := True\<rparr>)
      else if spiffs_begin_format e
           then (True, s\<lparr>spiffs_mounted := True, spiffs_fdr_csv := None\<rparr>)
           else (False, s\<lparr>spiffs_mounted := False\<rparr>))"

definition closeFdrFileIfOpen :: "fdr_state \<Rightarrow> fdr_state" where
  "closeFdrFileIfOpen s = (if fdr_file s then s\<lparr>fdr_file := False\<rparr> else s)"

definition openFdrFileForWrite :: "fdr_env \<Rightarrow> fdr_state \<Rightarrow> bool \<times> fdr_state" where
  "openFdrFileForWrite e s =
     (let s1 = (if fdr_file s then s\<lparr>fdr_file := False\<rparr> else s);
          s2 = (case spiffs_fdr_csv s1 of None \<Rightarrow> s1 | Some c \<Rightarrow> s1\<lparr>spiffs_fdr_csv := None\<rparr>)
      in if \<not> open_write_ok e then (False, s2\<lparr>fdr_file := False\<rparr>)
         else (True, s2\<lparr>fdr_file := True, spiffs_fdr_csv := Some (FDR_HEADER @ CRLF)\<rparr>))"

definition openFdrFileForAppend :: "fdr_env \<Rightarrow> fdr_state \<Rightarrow> bool \<times> fdr_state" where
  "openFdrFileForAppend e s =
     (let s1 = (if \<not> fdr_file s
                then (if open_append_ok e
                      then s\<lparr>fdr_file := True, spiffs_fdr_csv := Some (file_content s)\<rparr>
                      else s\<lparr>fdr_file := False\<rparr>)
                else s)
      in (fdr_file s1, s1))"

text \<open>\<open>k\<close> is the index of the clock reading that the flush takes at its end.\<close>

definition flushBufferToFile :: "fdr_env \<Rightarrow> nat \<Rightarrow> fdr_state \<Rightarrow> fdr_state" where
  "flushBufferToFile e k s =
     (if length (fdr_write_buffer s) = 0 then s
      else
        (case (if \<not> fdr_file s
               then (case ensureSpiffs e s of
                       (False, s1) \<Rightarrow> (False, s1)
                     | (True, s1) \<Rightarrow> openFdrFileForAppend e s1)
               else (True, s)) of
           (False, s2) \<Rightarrow> s2
         | (True, s2) \<Rightarrow>
             (let wrote = file_write_ret e;
                  s3 = s2\<lparr>spiffs_fdr_csv := Some (file_content s2 @ take wrote (fdr_write_buffer s2))\<rparr>;
                  s4 = (if wrote = length (fdr_write_buffer s3) then s3\<lparr>fdr_write_buffer := []\<rparr>
                        else if 0 < wrote \<and> wrote < length (fdr_write_buffer s3)
                             then s3\<lparr>fdr_write_buffer := drop wrote (fdr_write_buffer s3)\<rparr>
                             else s3)
              in s4\<lparr>last_flush_ms := millis e k\<rparr>)))"

subsection \<open>fdr.cpp: public functions\<close>

definition fdr_start :: "fdr_env \<Rightarrow> u32 \<Rightarrow> u32 \<Rightarrow> fdr_state \<Rightarrow> bool \<times> fdr_state" where
  "fdr_start e duration_s samples_per_sec s =
     (case ensureSpiffs e s of
        (False, s1) \<Rightarrow> (False, s1)
      | (True, s1) \<Rightarrow>
          (let sps1 = (if samples_per_sec = 0 then 1 else samples_per_sec);
               sps2 = (if sps1 > MAX_SAMPLES_PER_SEC then MAX_SAMPLES_PER_SEC else sps1);
               s2 = s1\<lparr>fdr_sample_interval_ms := 1000 div sps2\<rparr>
           in case openFdrFileForWrite e s2 of
                (False, s3) \<Rightarrow> (False, s3)
              | (True, s3) \<Rightarrow>
                  (let s4 = s3\<lparr>fdr_write_buffer := [], last_flush_ms := millis e 0\<rparr>;
                       s5 = s4\<lparr>fdr_active := True, fdr_start_ms := millis e 1\<rparr>;
                       s6 = s5\<lparr>fdr_end_ms := fdr_start_ms s5 + duration_s * 1000,
                               last_sample_ms := 0\<rparr>
                   in (True, s6))))"

definition fdr_stop :: "fdr_env \<Rightarrow> nat \<Rightarrow> fdr_state \<Rightarrow> fdr_state" where
  "fdr_stop e k s =
     (if \<not> fdr_active s then s
      else (let s1 = flushBufferToFile e k s;
                s2 = closeFdrFileIfOpen s1
            in s2\<lparr>fdr_active := False\<rparr>))"

definition fdr_reset :: "fdr_env \<Rightarrow> fdr_state \<Rightarrow> fdr_state" where
  "fdr_reset e s =
     (case ensureSpiffs e s of
        (False, s1) \<Rightarrow> s1
      | (True, s1) \<Rightarrow>
          (let s2 = closeFdrFileIfOpen s1
           in case spiffs_fdr_csv s2 of None \<Rightarrow> s2 | Some c \<Rightarrow> s2\<lparr>spiffs_fdr_csv := None\<rparr>))"

definition fdr_isActive :: "fdr_state \<Rightarrow> bool" where
  "fdr_isActive s = fdr_active s"

text \<open>
  \<open>fdr_process\<close> reads the barometer module through \<open>barometer_isReady\<close> and
  \<open>barometer_getPressure\<close> only, so it takes that module's state as an argument.
  \<open>snprintf\<close> into \<open>char line[64]\<close> keeps at most 63 characters.
\<close>

definition fdr_process :: "fdr_env \<Rightarrow> baro_state \<Rightarrow> fdr_state \<Rightarrow> fdr_state" where
  "fdr_process e b s =
     (if \<not> fdr_active s then s
      else
        (let now = millis e 0
         in if now \<ge> fdr_end_ms s then fdr_stop e 1 s
            else if last_sample_ms s = 0 \<or> (now - last_sample_ms s) \<ge> fdr_sample_interval_ms s
            then
              (let s1 = s\<lparr>last_sample_ms := now\<rparr>
               in if \<not> barometer_isReady b then s1
                  else
                    (let pressure = barometer_getPressure b;
                         line = take 63 (format_line e (now - fdr_start_ms s1) pressure);
                         s2 = s1\<lparr>fdr_write_buffer := fdr_write_buffer s1 @ line\<rparr>
                     in if length (fdr_write_buffer s2) \<ge> BUFFER_FLUSH_THRESHOLD \<or>
                           (now - last_flush_ms s2) \<ge> BUFFER_FLUSH_INTERVAL_MS
                        then flushBufferToFile e 1 s2
                        else s2))
            else s))"

definition fdr_streamFile :: "fdr_env \<Rightarrow> fdr_state \<Rightarrow> (export_error + string) \<times> fdr_state" where
  "fdr_streamFile e s =
     (case ensureSpiffs e s of
        (False, s1) \<Rightarrow> (Inl StorageUnavailable, s1)
      | (True, s1) \<Rightarrow>
          (case spiffs_fdr_csv s1 of
             None \<Rightarrow> (Inl NoData, s1)
           | Some c0 \<Rightarrow>
               (let s2 = (if fdr_active s1 \<and> length (fdr_write_buffer s1) > 0
                          then flushBufferToFile e 0 s1 else s1)
                in case spiffs_fdr_csv s2 of
                     None \<Rightarrow> (Inl IoError, s2)
                   | Some c \<Rightarrow> if \<not> open_read_ok e then (Inl IoError, s2) else (Inr c, s2))))"

subsection \<open>Runs, and the specification's own words\<close>

text \<open>A run of the acquisition cycle over the environments of successive cycles.\<close>

fun baro_run :: "baro_state \<Rightarrow> baro_env list \<Rightarrow> baro_state" where
  "baro_run s [] = s"
| "baro_run s (e # es) = baro_run (barometer_process e s) es"

text \<open>
  The smoothing filter's input and output over a run: one pair (raw pressure, smoothed
  pressure after the cycle) for every cycle that starts with a sensor active. Cycles that
  scan the bus read no pressure and contribute nothing.
\<close>

fun smoothing_trace :: "baro_state \<Rightarrow> baro_env list \<Rightarrow> (cfloat \<times> cfloat) list" where
  "smoothing_trace s [] = []"
| "smoothing_trace s (e # es) =
     (if bme_ok s
      then (read_raw_pressure e s, pressure_ema (barometer_process e s)) #
             smoothing_trace (barometer_process e s) es
      else smoothing_trace (barometer_process e s) es)"

text \<open>
  The filter's rule over such a list of pairs, \<open>prev\<close> being the filter's value before the
  first pair: the output of a filter that holds no value is the raw reading, every other
  output is 0.25 raw + 0.75 previous output, in the arithmetic of the code.
\<close>

fun ema_chain :: "cfloat \<Rightarrow> (cfloat \<times> cfloat) list \<Rightarrow> bool" where
  "ema_chain prev [] = True"
| "ema_chain prev ((raw, sm) # rest) =
     (sm = (if isnan prev then raw else fadd (fmul (Val 0.25) raw) (fmul (Val 0.75) prev))
      \<and> ema_chain sm rest)"

text \<open>The specification's validation ranges, in its own words: temperature in [-40, 85],
  pressure in [300, 1100].\<close>

definition reading_in_range :: "cfloat \<Rightarrow> cfloat \<Rightarrow> bool" where
  "reading_in_range t p =
     (case t of NaN \<Rightarrow> False
      | Val tv \<Rightarrow> (case p of NaN \<Rightarrow> False
                  | Val pv \<Rightarrow> - 40 \<le> tv \<and> tv \<le> 85 \<and> 300 \<le> pv \<and> pv \<le> 1100))"

definition cycle_in_range :: "baro_env \<Rightarrow> baro_state \<Rightarrow> bool" where
  "cycle_in_range e s = reading_in_range (read_temperature e s) (read_raw_pressure e s)"

text \<open>
  The specification's probe order at the primary address, in its own words: each step with
  whether it succeeds; the identity read is a step that never ends the scan; the fallback
  driver is a step only when the identity register holds the expected ID.
\<close>

definition primary_probe_steps :: "baro_env \<Rightarrow> (probe \<times> bool) list" where
  "primary_probe_steps e =
     [(BME280_at BME280_ADDRESS_PRIMARY, bme_begin e 0 BME280_ADDRESS_PRIMARY),
      (ChipID_at BME280_ADDRESS_PRIMARY, False),
      (BME280_at BME280_ADDRESS_PRIMARY, bme_begin e 1 BME280_ADDRESS_PRIMARY),
      (BME280_at BME280_ADDRESS_SECONDARY, bme_begin e 2 BME280_ADDRESS_SECONDARY)] @
     (if chip_id_reg e BME280_ADDRESS_PRIMARY = Some BME280_CHIP_ID
      then [(BMP280_at BME280_ADDRESS_PRIMARY, bmp_begin e BME280_ADDRESS_PRIMARY)]
      else [])"

fun upto_first_success :: "(probe \<times> bool) list \<Rightarrow> probe list" where
  "upto_first_success [] = []"
| "upto_first_success ((p, ok) # rest) = (if ok then [p] else p # upto_first_success rest)"

subsection \<open>Concrete inputs\<close>

text \<open>A platform on which every file-system call succeeds, with the clock at \<open>t\<close>, a write
  that returns \<open>w\<close>, and \<open>line\<close> as the formatted sample line.\<close>

definition ex_fdr_env :: "u32 \<Rightarrow> nat \<Rightarrow> string \<Rightarrow> fdr_env" where
  "ex_fdr_env t w line = \<lparr> spiffs_begin_plain = True, spiffs_begin_format = True,
     open_write_ok = True, open_append_ok = True, open_read_ok = True, file_write_ret = w,
     millis = (\<lambda>k. t), format_line = (\<lambda>ms p. line) \<rparr>"

definition ex_line0 :: string where
  "ex_line0 = ''0.000,1013.25'' @ [CHR 0x0A]"

definition ex_line300 :: string where
  "ex_line300 = ''0.300,1013.25'' @ [CHR 0x0A]"

text \<open>A bus on which only address 0x76 answers; the sensor there starts with the BME280
  driver at once, and reads temperature \<open>t\<close> and pressure \<open>p\<close> (in pascal).\<close>

definition ex_baro_env :: "real \<Rightarrow> real \<Rightarrow> baro_env" where
  "ex_baro_env t p = \<lparr> i2c_ack = (\<lambda>a. a = 0x76), bme_begin = (\<lambda>k a. a = 0x76),
     bmp_begin = (\<lambda>a. False), chip_id_reg = (\<lambda>a. Some 0x60),
     bme_readTemperature = Val t, bme_readPressure = Val p,
     bmp_readTemperature = Val t, bmp_readPressure = Val p \<rparr>"

text \<open>A bus on which the device at 0x76 reports identity 0x58 and starts with the BMP280
  driver only.\<close>

definition ex_bus_fallback :: baro_env where
  "ex_bus_fallback = \<lparr> i2c_ack = (\<lambda>a. a = 0x76), bme_begin = (\<lambda>k a. False),
     bmp_begin = (\<lambda>a. a = 0x76), chip_id_reg = (\<lambda>a. Some 0x58),
     bme_readTemperature = NaN, bme_readPressure = NaN,
     bmp_readTemperature = Val 20, bmp_readPressure = Val 101325 \<rparr>"

text \<open>The sensor after a successful \<open>barometer_init\<close> and one good cycle, and the same
  module after three readings of 2000 hPa in a row have sent it back to scanning.\<close>

definition ex_baro_ready :: baro_state where
  "ex_baro_ready = barometer_process (ex_baro_env 20 101325) (barometer_init (ex_baro_env 20 101325) baro_boot)"

definition ex_baro_scanning :: baro_state where
  "ex_baro_scanning =
     baro_run ex_baro_ready [ex_baro_env 20 200000, ex_baro_env 20 200000, ex_baro_env 20 200000]"

text \<open>A session started at 1000 ms for 10 s at 10 samples per second, and the same session
  after its first cycle, with one line in the buffer.\<close>

definition ex_started :: fdr_state where
  "ex_started = snd (fdr_start (ex_fdr_env 1000 0 ex_line0) 10 10 fdr_boot)"

definition ex_recording :: fdr_state where
  "ex_recording = fdr_process (ex_fdr_env 1000 0 ex_line0) ex_baro_ready ex_started"

section \<open>Rounding to binary32\<close>

lemma rne_of_int [simp]: "rne (of_int n) = n"
  by (simp add: rne_def)

lemma rne_near: "\<bar>y - of_int n\<bar> < 1 / 2 \<Longrightarrow> rne y = n"
proof -
  assume a: "\<bar>y - of_int n\<bar> < 1 / 2"
  show ?thesis
  proof (cases "of_int n \<le> y")
    case True
    with a have "\<lfloor>y\<rfloor> = n" by (intro floor_unique) auto
    with a True show ?thesis by (simp add: rne_def)
  next
    case False
    with a have f: "\<lfloor>y\<rfloor> = n - 1" by (intro floor_unique) auto
    with a False show ?thesis by (auto simp: rne_def Let_def)
  qed
qed

lemma rne_tie: "\<bar>y - of_int n\<bar> = 1 / 2 \<Longrightarrow> even n \<Longrightarrow> rne y = n"
proof -
  assume a: "\<bar>y - of_int n\<bar> = 1 / 2" and e: "even n"
  show ?thesis
  proof (cases "of_int n \<le> y")
    case True
    with a have "\<lfloor>y\<rfloor> = n" by (intro floor_unique) auto
    with a True e show ?thesis by (simp add: rne_def)
  next
    case False
    with a have f: "\<lfloor>y\<rfloor> = n - 1" by (intro floor_unique) auto
    with a False e show ?thesis by (auto simp: rne_def Let_def)
  qed
qed

lemma rne_error: "\<bar>y - of_int (rne y)\<bar> \<le> 1 / 2"
proof -
  have "of_int \<lfloor>y\<rfloor> \<le> y" "y < of_int \<lfloor>y\<rfloor> + 1" by linarith+
  then show ?thesis by (auto simp: rne_def Let_def)
qed

lemma rne_neg: "rne (- y) = - rne y"
proof -
  have e: "\<bar>y - of_int (rne y)\<bar> \<le> 1 / 2" by (rule rne_error)
  show ?thesis
  proof (cases "\<bar>y - of_int (rne y)\<bar> < 1 / 2")
    case True
    then have "\<bar>- y - of_int (- rne y)\<bar> < 1 / 2" by (simp add: abs_minus_commute)
    then show ?thesis by (rule rne_near)
  next
    case False
    with e have t: "\<bar>y - of_int (rne y)\<bar> = 1 / 2" by simp
    have "even (rne y)"
    proof -
      have "of_int \<lfloor>y\<rfloor> \<le> y" "y < of_int \<lfloor>y\<rfloor> + 1" by linarith+
      with t show ?thesis by (auto simp: rne_def Let_def split: if_splits)
    qed
    moreover from t have "\<bar>- y - of_int (- rne y)\<bar> = 1 / 2" by (simp add: abs_minus_commute)
    ultimately show ?thesis by (intro rne_tie) auto
  qed
qed

lemma two_powi_pos [simp]: "0 < (2::real) powi k"
  by (simp add: zero_less_power_int)

lemma two_powr_int: "(2::real) powr real_of_int i = 2 powi i"
  by (simp add: powr_real_of_int')

lemma binade_bounds:
  assumes "x \<noteq> 0"
  shows "2 powi \<lfloor>log 2 \<bar>x\<bar>\<rfloor> \<le> \<bar>x\<bar>" and "\<bar>x\<bar> < 2 powi (\<lfloor>log 2 \<bar>x\<bar>\<rfloor> + 1)"
proof -
  from assms have pos: "0 < \<bar>x\<bar>" by simp
  have "2 powr real_of_int \<lfloor>log 2 \<bar>x\<bar>\<rfloor> \<le> \<bar>x\<bar> \<and> \<bar>x\<bar> < 2 powr real_of_int (\<lfloor>log 2 \<bar>x\<bar>\<rfloor> + 1)"
  proof -
    have "1 < (2::real)" by simp
    from floor_log_eq_powr_iff[OF pos this, of "\<lfloor>log 2 \<bar>x\<bar>\<rfloor>"] show ?thesis by blast
  qed
  then show "2 powi \<lfloor>log 2 \<bar>x\<bar>\<rfloor> \<le> \<bar>x\<bar>" and "\<bar>x\<bar> < 2 powi (\<lfloor>log 2 \<bar>x\<bar>\<rfloor> + 1)"
    unfolding two_powr_int by blast+
qed

lemma binade_unique:
  assumes "2 powi k \<le> \<bar>x\<bar>" and "\<bar>x\<bar> < 2 powi (k + 1)"
  shows "\<lfloor>log 2 \<bar>x\<bar>\<rfloor> = k"
proof -
  have pos: "0 < \<bar>x\<bar>" using assms(1) two_powi_pos[of k] by linarith
  have "1 < (2::real)" by simp
  from floor_log_eq_powr_iff[OF pos this, of k] assms show ?thesis
    unfolding two_powr_int by blast
qed

lemma ulp32_binade:
  assumes "2 powi k \<le> \<bar>x\<bar>" and "\<bar>x\<bar> < 2 powi (k + 1)"
  shows "ulp32 x = 2 powi (k - 23)"
  using binade_unique[OF assms] by (simp add: ulp32_def)

lemma ulp32_pos [simp]: "0 < ulp32 x"
  by (simp add: ulp32_def)

lemma ulp32_scale:
  assumes "x \<noteq> 0"
  shows "ulp32 (x * 2 powi j) = ulp32 x * 2 powi j"
proof -
  let ?k = "\<lfloor>log 2 \<bar>x\<bar>\<rfloor>"
  have b: "2 powi ?k \<le> \<bar>x\<bar>" "\<bar>x\<bar> < 2 powi (?k + 1)"
    using binade_bounds[OF assms] by simp_all
  have "2 powi (?k + j) \<le> \<bar>x * 2 powi j\<bar>"
    using b(1) by (simp add: power_int_add abs_mult)
  moreover have "\<bar>x * 2 powi j\<bar> < 2 powi (?k + j + 1)"
  proof -
    have "\<bar>x\<bar> * 2 powi j < 2 powi (?k + 1) * 2 powi j"
      using b(2) by simp
    then show ?thesis by (simp add: power_int_add abs_mult algebra_simps)
  qed
  ultimately have "ulp32 (x * 2 powi j) = 2 powi (?k + j - 23)"
    by (rule ulp32_binade)
  also have "\<dots> = 2 powi (?k - 23) * 2 powi j"
  proof -
    have "?k + j - 23 = (?k - 23) + j" by simp
    moreover have "(2::real) powi ((?k - 23) + j) = 2 powi (?k - 23) * 2 powi j"
      by (rule power_int_add) simp
    ultimately show ?thesis by (simp only:)
  qed
  finally show ?thesis by (simp add: ulp32_def)
qed

lemma round32_scale: "round32 (x * 2 powi j) = round32 x * 2 powi j"
proof (cases "x = 0")
  case True
  then show ?thesis by (simp add: round32_def)
next
  case False
  have nz: "(2::real) powi j \<noteq> 0" using two_powi_pos[of j] by simp
  have "x * 2 powi j / (ulp32 x * 2 powi j) = x / ulp32 x"
    using nz by simp
  then show ?thesis
    using False nz by (simp add: round32_def ulp32_scale)
qed

lemma ulp32_neg [simp]: "ulp32 (- x) = ulp32 x"
  by (simp add: ulp32_def)

lemma round32_neg: "round32 (- x) = - round32 x"
  by (simp add: round32_def rne_neg)

lemma round32_zero [simp]: "round32 0 = 0"
  by (simp add: round32_def)

text \<open>A real whose quotient by its own spacing is an integer is a binary32 number.\<close>

lemma round32_fix:
  assumes "x / ulp32 x = of_int m"
  shows "round32 x = x"
proof (cases "x = 0")
  case True
  then show ?thesis by simp
next
  case False
  have r: "rne (x / ulp32 x) = m" using assms by simp
  have "x = of_int m * ulp32 x"
    using assms ulp32_pos[of x] by (simp add: field_simps)
  with False r show ?thesis by (simp add: round32_def)
qed

lemma round32_of_int:
  assumes "\<bar>n\<bar> < 2 ^ 24"
  shows "round32 (of_int n) = of_int n"
proof (cases "n = 0")
  case True
  then show ?thesis by simp
next
  case False
  let ?x = "real_of_int n"
  let ?k = "\<lfloor>log 2 \<bar>?x\<bar>\<rfloor>"
  from False have nz: "?x \<noteq> 0" by simp
  have b: "2 powi ?k \<le> \<bar>?x\<bar>" using binade_bounds[OF nz] by simp
  have "?k \<le> 23"
  proof (rule ccontr)
    assume "\<not> ?k \<le> 23"
    then have "24 \<le> ?k" by simp
    then have "(2::real) powi 24 \<le> 2 powi ?k" by (intro power_int_increasing) simp_all
    with b have "(2::real) ^ 24 \<le> \<bar>?x\<bar>" by simp
    moreover have "\<bar>?x\<bar> < 2 ^ 24" using assms by (metis of_int_abs of_int_less_numeral_power_cancel_iff)
    ultimately show False by simp
  qed
  then obtain d :: nat where d: "?k - 23 = - int d"
    by (metis add.inverse_inverse diff_le_0_iff_le nonneg_int_cases neg_0_le_iff_le)
  have "?x / ulp32 ?x = of_int (n * 2 ^ d)"
    by (simp add: ulp32_def d power_int_minus field_simps)
  then show ?thesis by (rule round32_fix)
qed

lemma round32_dyadic:
  assumes "\<bar>n\<bar> < 2 ^ 24"
  shows "round32 (of_int n * 2 powi j) = of_int n * 2 powi j"
  using round32_scale[of "of_int n" j] round32_of_int[OF assms] by simp

lemma mantissa_bounds:
  assumes "x \<noteq> 0"
  shows "2 ^ 23 \<le> \<bar>x / ulp32 x\<bar>" and "\<bar>x / ulp32 x\<bar> < 2 ^ 24"
proof -
  let ?k = "\<lfloor>log 2 \<bar>x\<bar>\<rfloor>"
  have u: "ulp32 x = 2 powi (?k - 23)" by (simp add: ulp32_def)
  have s1: "(2::real) powi ?k = 2 ^ 23 * 2 powi (?k - 23)"
  proof -
    have "(2::real) powi (23 + (?k - 23)) = 2 powi 23 * 2 powi (?k - 23)"
      by (rule power_int_add) simp
    then show ?thesis by simp
  qed
  have s2: "(2::real) powi (?k + 1) = 2 ^ 24 * 2 powi (?k - 23)"
  proof -
    have "(2::real) powi (24 + (?k - 23)) = 2 powi 24 * 2 powi (?k - 23)"
      by (rule power_int_add) simp
    moreover have "24 + (?k - 23) = ?k + 1" by simp
    ultimately show ?thesis by simp
  qed
  have a: "\<bar>x / ulp32 x\<bar> = \<bar>x\<bar> / ulp32 x" by (simp add: abs_divide) (simp add: u)
  from binade_bounds(1)[OF assms] show "2 ^ 23 \<le> \<bar>x / ulp32 x\<bar>"
    unfolding a s1 u by (simp add: field_simps)
  from binade_bounds(2)[OF assms] show "\<bar>x / ulp32 x\<bar> < 2 ^ 24"
    unfolding a s2 u by (simp add: field_simps)
qed

lemma round32_mantissa:
  assumes "x \<noteq> 0"
  shows "round32 x = of_int (rne (x / ulp32 x)) * ulp32 x"
    and "2 ^ 23 \<le> \<bar>rne (x / ulp32 x)\<bar>" and "\<bar>rne (x / ulp32 x)\<bar> \<le> 2 ^ 24"
proof -
  let ?q = "x / ulp32 x"
  show "round32 x = of_int (rne ?q) * ulp32 x" using assms by (simp add: round32_def)
  have e: "\<bar>?q - of_int (rne ?q)\<bar> \<le> 1 / 2" by (rule rne_error)
  have lo: "2 ^ 23 \<le> \<bar>?q\<bar>" and hi: "\<bar>?q\<bar> < 2 ^ 24" using mantissa_bounds[OF assms] by simp_all
  have "\<bar>real_of_int (rne ?q)\<bar> < 2 ^ 24 + 1" using e hi by linarith
  then have "\<bar>rne ?q\<bar> < 2 ^ 24 + 1"
    by (metis (mono_tags) of_int_abs of_int_less_iff of_int_numeral of_int_power of_int_add of_int_1)
  then show "\<bar>rne ?q\<bar> \<le> 2 ^ 24" by simp
  have "2 ^ 23 - 1 < \<bar>real_of_int (rne ?q)\<bar>" using e lo by linarith
  then have "2 ^ 23 - 1 < \<bar>rne ?q\<bar>"
    by (metis (mono_tags) of_int_abs of_int_less_iff of_int_numeral of_int_power of_int_diff of_int_1)
  then show "2 ^ 23 \<le> \<bar>rne ?q\<bar>" by simp
qed

lemma round32_idem [simp]: "round32 (round32 y) = round32 y"
proof (cases "y = 0")
  case True
  then show ?thesis by simp
next
  case False
  let ?R = "rne (y / ulp32 y)"
  let ?j = "\<lfloor>log 2 \<bar>y\<bar>\<rfloor> - 23"
  have z: "round32 y = of_int ?R * 2 powi ?j"
    using round32_mantissa(1)[OF False] by (simp add: ulp32_def)
  have hi: "\<bar>?R\<bar> \<le> 2 ^ 24" by (rule round32_mantissa(3)[OF False])
  show ?thesis
  proof (cases "\<bar>?R\<bar> < 2 ^ 24")
    case True
    then show ?thesis unfolding z by (rule round32_dyadic)
  next
    case False
    with hi have "\<bar>?R\<bar> = 2 ^ 24" by simp
    then consider "?R = 2 ^ 24" | "?R = - (2 ^ 24)" by (auto simp: abs_if split: if_splits)
    then have "of_int ?R * (2::real) powi ?j = of_int (?R div 2) * 2 powi (?j + 1)"
    proof cases
      case 1
      have "(2::real) powi (?j + 1) = 2 powi ?j * 2 powi 1" by (rule power_int_add) simp
      then show ?thesis by (simp add: 1)
    next
      case 2
      have "(2::real) powi (?j + 1) = 2 powi ?j * 2 powi 1" by (rule power_int_add) simp
      then show ?thesis by (simp add: 2)
    qed
    moreover have "\<bar>?R div 2\<bar> < 2 ^ 24" using \<open>\<bar>?R\<bar> = 2 ^ 24\<close> by (auto simp: abs_if split: if_splits)
    ultimately show ?thesis unfolding z using round32_dyadic[of "?R div 2" "?j + 1"] by simp
  qed
qed

lemma round32_int_at:
  assumes "2 ^ k \<le> \<bar>n\<bar>" and "\<bar>n\<bar> < 2 ^ Suc k"
  shows "round32 (of_int n) = of_int (rne (of_int n / 2 powi (int k - 23))) * 2 powi (int k - 23)"
proof -
  have nz: "real_of_int n \<noteq> 0" using assms(1) by auto
  have "(2::real) ^ k \<le> \<bar>real_of_int n\<bar>"
    using assms(1) by (metis of_int_abs of_int_le_iff of_int_numeral of_int_power)
  then have lo: "(2::real) powi int k \<le> \<bar>real_of_int n\<bar>" by simp
  have "\<bar>real_of_int n\<bar> < 2 ^ Suc k"
    using assms(2) by (metis of_int_abs of_int_less_iff of_int_numeral of_int_power)
  moreover have "(2::real) powi (int k + 1) = 2 ^ Suc k"
    by (metis of_nat_Suc power_int_of_nat add.commute)
  ultimately have hi: "\<bar>real_of_int n\<bar> < 2 powi (int k + 1)" by simp
  have "ulp32 (of_int n) = 2 powi (int k - 23)" by (rule ulp32_binade[OF lo hi])
  with nz show ?thesis by (simp add: round32_def)
qed

text \<open>Three quarters of a 24-bit mantissa, rounded: within 2 of the exact value, and exactly
  2 away only for an even mantissa.\<close>

lemma three_quarters_rounded:
  assumes "2 ^ 23 \<le> M" and "M < 2 ^ 24"
  shows "\<exists>T :: int. round32 (of_int (3 * M)) = of_int T
    \<and> \<bar>T - 3 * M\<bar> \<le> 2 \<and> (\<bar>T - 3 * M\<bar> = 2 \<longrightarrow> even M)
    \<and> (odd M \<or> 2 ^ 25 \<le> 3 * M \<or> T = 3 * M)"
proof (cases "3 * M < 2 ^ 25")
  case True
  have "2 ^ 24 \<le> \<bar>3 * M\<bar>" "\<bar>3 * M\<bar> < 2 ^ Suc 24" using assms True by simp_all
  from round32_int_at[OF this]
  have r: "round32 (of_int (3 * M)) = of_int (rne (of_int (3 * M) / 2)) * 2" by simp
  let ?T = "rne (of_int (3 * M) / 2) * 2"
  have e: "\<bar>real_of_int (3 * M) / 2 - of_int (rne (of_int (3 * M) / 2))\<bar> \<le> 1 / 2" by (rule rne_error)
  then have "\<bar>real_of_int (?T - 3 * M)\<bar> \<le> 1" by (simp add: field_simps abs_minus_commute)
  then have d: "\<bar>?T - 3 * M\<bar> \<le> 1" by linarith
  have ev: "?T = 3 * M" if "even M"
  proof -
    from that obtain h where "M = 2 * h" by (elim evenE)
    then have "real_of_int (3 * M) / 2 = of_int (3 * h)" by simp
    then have "rne (of_int (3 * M) / 2) = 3 * h" by (simp only: rne_of_int)
    then show ?thesis using \<open>M = 2 * h\<close> by simp
  qed
  show ?thesis
  proof (intro exI[of _ ?T] conjI impI)
    show "round32 (of_int (3 * M)) = of_int ?T" using r by simp
    show "\<bar>?T - 3 * M\<bar> \<le> 2" using d by simp
    show "even M" if "\<bar>?T - 3 * M\<bar> = 2" using d that by simp
    show "odd M \<or> 2 ^ 25 \<le> 3 * M \<or> ?T = 3 * M" using ev by blast
  qed
next
  case False
  have "2 ^ 25 \<le> \<bar>3 * M\<bar>" "\<bar>3 * M\<bar> < 2 ^ Suc 25" using assms False by simp_all
  from round32_int_at[OF this]
  have r: "round32 (of_int (3 * M)) = of_int (rne (of_int (3 * M) / 4)) * 4" by simp
  let ?T = "rne (of_int (3 * M) / 4) * 4"
  have e: "\<bar>real_of_int (3 * M) / 4 - of_int (rne (of_int (3 * M) / 4))\<bar> \<le> 1 / 2" by (rule rne_error)
  then have "\<bar>real_of_int (?T - 3 * M)\<bar> \<le> 2" by (simp add: field_simps abs_minus_commute)
  then have d: "\<bar>?T - 3 * M\<bar> \<le> 2" by linarith
  show ?thesis
  proof (intro exI[of _ ?T] conjI impI)
    show "round32 (of_int (3 * M)) = of_int ?T" using r by simp
    show "\<bar>?T - 3 * M\<bar> \<le> 2" by (rule d)
    show "even M" if "\<bar>?T - 3 * M\<bar> = 2"
    proof -
      from that have "even (3 * M)" by presburger
      then show ?thesis by simp
    qed
    show "odd M \<or> 2 ^ 25 \<le> 3 * M \<or> ?T = 3 * M" using False by simp
  qed
qed

lemma sum_rounded:
  assumes "2 ^ 23 \<le> M" and "M < 2 ^ 24" and "\<bar>d\<bar> \<le> 2" and "\<bar>d\<bar> = 2 \<Longrightarrow> even M"
    and "2 ^ 25 \<le> 4 * M + d"
  shows "round32 (of_int (4 * M + d)) = of_int (4 * M)"
proof -
  have "2 ^ 25 \<le> \<bar>4 * M + d\<bar>" "\<bar>4 * M + d\<bar> < 2 ^ Suc 25" using assms by simp_all
  from round32_int_at[OF this]
  have r: "round32 (of_int (4 * M + d)) = of_int (rne (of_int (4 * M + d) / 4)) * 4" by simp
  have q: "real_of_int (4 * M + d) / 4 - of_int M = of_int d / 4"
    by (simp add: add_divide_distrib)
  have "rne (of_int (4 * M + d) / 4) = M"
  proof (cases "\<bar>d\<bar> = 2")
    case True
    then have "\<bar>real_of_int d\<bar> = 2" by linarith
    then have "\<bar>real_of_int (4 * M + d) / 4 - of_int M\<bar> = 1 / 2" unfolding q by simp
    then show ?thesis using assms(4)[OF True] by (rule rne_tie)
  next
    case False
    with assms(3) have "\<bar>d\<bar> < 2" by simp
    then have "\<bar>real_of_int d\<bar> < 2" by linarith
    then have "\<bar>real_of_int (4 * M + d) / 4 - of_int M\<bar> < 1 / 2" unfolding q by simp
    then show ?thesis by (rule rne_near)
  qed
  with r show ?thesis by simp
qed

lemma seed_identity_mantissa:
  assumes "2 ^ 23 \<le> M" and "M < 2 ^ 24"
  shows "round32 (of_int M + round32 (of_int (3 * M))) = of_int (4 * M)"
proof -
  obtain T :: int where T: "round32 (of_int (3 * M)) = of_int T"
    and d: "\<bar>T - 3 * M\<bar> \<le> 2" and ev: "\<bar>T - 3 * M\<bar> = 2 \<Longrightarrow> even M"
    and lo: "odd M \<or> 2 ^ 25 \<le> 3 * M \<or> T = 3 * M"
    using three_quarters_rounded[OF assms] by blast
  have big: "2 ^ 25 \<le> 4 * M + (T - 3 * M)"
  proof -
    from lo consider "odd M" | "2 ^ 25 \<le> 3 * M" | "T = 3 * M" by blast
    then show ?thesis
    proof cases
      case 1
      then have "M \<noteq> 2 ^ 23" by auto
      with assms(1) have "2 ^ 23 + 1 \<le> M" by simp
      with d show ?thesis by simp
    next
      case 2
      with d assms show ?thesis by simp
    next
      case 3
      with assms show ?thesis by simp
    qed
  qed
  have "of_int M + round32 (of_int (3 * M)) = real_of_int (4 * M + (T - 3 * M))"
    by (subst T) simp
  then show ?thesis
    using sum_rounded[OF assms d ev big] by simp
qed

lemma seed_identity_pos:
  assumes "round32 x = x" and "0 < x"
  shows "round32 (round32 (1 / 4 * x) + round32 (3 / 4 * x)) = x"
proof -
  let ?M = "rne (x / ulp32 x)"
  let ?j = "\<lfloor>log 2 \<bar>x\<bar>\<rfloor> - 23"
  from assms(2) have nz: "x \<noteq> 0" by simp
  have x: "x = of_int ?M * 2 powi ?j"
    using round32_mantissa(1)[OF nz] assms(1) by (simp add: ulp32_def)
  have Mq: "real_of_int ?M = x / ulp32 x"
  proof -
    define m where "m = real_of_int ?M"
    define u where "u = ulp32 x"
    have "0 < u" by (simp add: u_def)
    moreover have "x = m * u" using round32_mantissa(1)[OF nz] assms(1) by (simp add: m_def u_def)
    ultimately have "m = x / u" by simp
    then show ?thesis by (simp add: m_def u_def)
  qed
  have "0 < x / ulp32 x" using assms(2) by simp
  then have "0 < real_of_int ?M" using Mq by simp
  then have Mpos: "0 < ?M" by simp
  have lo: "2 ^ 23 \<le> ?M" using round32_mantissa(2)[OF nz] Mpos by simp
  have "\<bar>real_of_int ?M\<bar> < 2 ^ 24" using mantissa_bounds(2)[OF nz] Mq by simp
  then have "real_of_int ?M < real_of_int (2 ^ 24)" by simp
  then have hi: "?M < 2 ^ 24" by (simp only: of_int_less_iff)
  have p: "(2::real) powi ?j = 4 * 2 powi (?j - 2)"
  proof -
    have "(2::real) powi (2 + (?j - 2)) = 2 powi 2 * 2 powi (?j - 2)" by (rule power_int_add) simp
    then show ?thesis by simp
  qed
  have a: "1 / 4 * x = of_int ?M * 2 powi (?j - 2)"
    by (subst x) (simp add: p)
  have b: "3 / 4 * x = of_int (3 * ?M) * 2 powi (?j - 2)"
    by (subst x) (simp add: p)
  have ra: "round32 (1 / 4 * x) = of_int ?M * 2 powi (?j - 2)"
    unfolding a using lo hi by (intro round32_dyadic) simp
  have rb: "round32 (3 / 4 * x) = round32 (of_int (3 * ?M)) * 2 powi (?j - 2)"
    unfolding b by (rule round32_scale)
  have "round32 (1 / 4 * x) + round32 (3 / 4 * x) =
          (of_int ?M + round32 (of_int (3 * ?M))) * 2 powi (?j - 2)"
    unfolding ra rb by (simp add: algebra_simps)
  then have "round32 (round32 (1 / 4 * x) + round32 (3 / 4 * x)) =
          round32 (of_int ?M + round32 (of_int (3 * ?M))) * 2 powi (?j - 2)"
    by (simp only: round32_scale)
  also have "\<dots> = of_int (4 * ?M) * 2 powi (?j - 2)"
    by (simp only: seed_identity_mantissa[OF lo hi])
  also have "\<dots> = x" by (subst (2) x) (simp add: p)
  finally show ?thesis .
qed

lemma seed_identity:
  assumes "round32 x = x"
  shows "round32 (round32 (1 / 4 * x) + round32 (3 / 4 * x)) = x"
proof -
  consider "x = 0" | "0 < x" | "x < 0" by linarith
  then show ?thesis
  proof cases
    case 1
    then show ?thesis by simp
  next
    case 2
    with assms show ?thesis by (rule seed_identity_pos)
  next
    case 3
    define S where "S = round32 (1 / 4 * x) + round32 (3 / 4 * x)"
    from 3 have "0 < - x" by simp
    moreover have "round32 (- x) = - x" using assms by (simp add: round32_neg)
    ultimately have "round32 (round32 (1 / 4 * (- x)) + round32 (3 / 4 * (- x))) = - x"
      by (rule seed_identity_pos[rotated])
    moreover have "round32 (1 / 4 * (- x)) = - round32 (1 / 4 * x)"
      using round32_neg[of "1 / 4 * x"] by simp
    moreover have "round32 (3 / 4 * (- x)) = - round32 (3 / 4 * x)"
      using round32_neg[of "3 / 4 * x"] by simp
    ultimately have "round32 (- S) = - x"
      by (simp add: S_def)
    then have "round32 S = x" by (simp add: round32_neg)
    then show ?thesis by (simp only: S_def)
  qed
qed

text \<open>Numbers with a significand below \<open>2 ^ 24\<close> are binary32 numbers: the numerals the
  concrete inputs run into.\<close>

lemma round32_numeral:
  "(numeral w :: int) < 2 ^ 24 \<Longrightarrow> round32 (numeral w) = numeral w"
  using round32_of_int[of "numeral w"] by simp

lemma round32_halves:
  "(numeral w :: int) < 2 ^ 24 \<Longrightarrow> round32 (numeral w / 2) = numeral w / 2"
  using round32_dyadic[of "numeral w" "- 1"] by (simp add: power_int_minus field_simps)

lemma round32_quarters:
  "(numeral w :: int) < 2 ^ 24 \<Longrightarrow> round32 (numeral w / 4) = numeral w / 4"
  using round32_dyadic[of "numeral w" "- 2"] by (simp add: power_int_minus field_simps)

lemma round32_sixteenths:
  "(numeral w :: int) < 2 ^ 24 \<Longrightarrow> round32 (numeral w / 16) = numeral w / 16"
  using round32_dyadic[of "numeral w" "- 4"] by (simp add: power_int_minus field_simps)

lemmas round32_values = round32_numeral round32_halves round32_quarters round32_sixteenths

text \<open>A division that does round: 101326 Pa is 1013.260009765625 hPa in binary32.\<close>

lemma division_rounds: "fdiv (Val 101326) (Val 100) = Val 1013.260009765625"
proof -
  have b: "2 powi 9 \<le> \<bar>101326 / 100 :: real\<bar>" "\<bar>101326 / 100 :: real\<bar> < 2 powi (9 + 1)"
    by simp_all
  have u: "ulp32 (101326 / 100) = 2 powi (9 - 23)" by (rule ulp32_binade[OF b])
  have u': "ulp32 (101326 / 100) = 1 / 16384" unfolding u by (simp add: power_int_minus)
  have "\<bar>(101326 / 100) / (1 / 16384) - real_of_int 16601252\<bar> < 1 / 2" by simp
  then have "rne ((101326 / 100) / (1 / 16384)) = 16601252" by (rule rne_near)
  then have "round32 (101326 / 100) = 16601252 / 16384"
    unfolding round32_def u' by simp
  then show ?thesis by simp
qed

section \<open>Facts about the concrete inputs and the mount\<close>

lemma ensureSpiffs_cases:
  obtains s1 where "ensureSpiffs e s = (True, s1)" "fst (ensureSpiffs e s)" "snd (ensureSpiffs e s) = s1"
  | s1 where "ensureSpiffs e s = (False, s1)" "\<not> fst (ensureSpiffs e s)"
  by (cases "ensureSpiffs e s") (auto split: bool.splits)

lemma ensureSpiffs_keeps:
  "fdr_active (snd (ensureSpiffs e s)) = fdr_active s"
  "fdr_write_buffer (snd (ensureSpiffs e s)) = fdr_write_buffer s"
  "fdr_file (snd (ensureSpiffs e s)) = fdr_file s"
  by (simp_all add: ensureSpiffs_def)

lemma ex_baro_ready_eq:
  "ex_baro_ready = \<lparr> bme_ok = True, bmp_used = False, bad_read_count = 0, lastTemp = Val 20,
     lastPressure = Val 1013.25, pressure_ema = Val 1013.25, deviceCount = 0 \<rparr>"
  by (simp add: ex_baro_ready_def barometer_process_def barometer_init_def baro_boot_def
      ex_baro_env_def BME280_ADDRESS_PRIMARY_def read_temperature_def read_raw_pressure_def
      initializePressureEMA_def updatePressureEMA_def PRESSURE_EMA_ALPHA_def
      validateSensorReadings_def fge_def TEMPERATURE_MIN_def TEMPERATURE_MAX_def
      PRESSURE_MIN_def PRESSURE_MAX_def Let_def round32_values)

lemma ex_started_eq:
  "ex_started = \<lparr> fdr_active = True, fdr_end_ms = 11000, fdr_start_ms = 1000, last_sample_ms = 0,
     fdr_sample_interval_ms = 100, spiffs_mounted = True, fdr_file = True,
     fdr_write_buffer = [], last_flush_ms = 1000, spiffs_fdr_csv = Some (FDR_HEADER @ CRLF) \<rparr>"
  by (simp add: ex_started_def fdr_start_def ensureSpiffs_def openFdrFileForWrite_def
      fdr_boot_def ex_fdr_env_def MAX_SAMPLES_PER_SEC_def Let_def)

lemma ex_recording_eq:
  "ex_recording = \<lparr> fdr_active = True, fdr_end_ms = 11000, fdr_start_ms = 1000, last_sample_ms = 1000,
     fdr_sample_interval_ms = 100, spiffs_mounted = True, fdr_file = True,
     fdr_write_buffer = ex_line0, last_flush_ms = 1000, spiffs_fdr_csv = Some (FDR_HEADER @ CRLF) \<rparr>"
  by (simp add: ex_recording_def ex_started_eq ex_baro_ready_eq fdr_process_def ex_fdr_env_def
      barometer_isReady_def barometer_getPressure_def BUFFER_FLUSH_THRESHOLD_def
      BUFFER_FLUSH_INTERVAL_MS_def ex_line0_def Let_def)

lemma ex_baro_scanning_eq: "\<not> bme_ok ex_baro_scanning"
  by (simp add: ex_baro_scanning_def ex_baro_ready_eq barometer_process_def ex_baro_env_def
      read_temperature_def read_raw_pressure_def initializePressureEMA_def updatePressureEMA_def
      PRESSURE_EMA_ALPHA_def validateSensorReadings_def fge_def TEMPERATURE_MIN_def
      TEMPERATURE_MAX_def PRESSURE_MIN_def PRESSURE_MAX_def BAD_READS_MAX_def Let_def round32_values)

lemmas process_defs = fdr_process_def ex_fdr_env_def barometer_isReady_def barometer_getPressure_def
  BUFFER_FLUSH_THRESHOLD_def BUFFER_FLUSH_INTERVAL_MS_def Let_def

section \<open>The recorder\<close>

subsection \<open>Flushing the write buffer\<close>

text \<open>
  Claim C1. Let \<open>b\<close> be the buffer and \<open>w\<close>, at most the length of \<open>b\<close>, the number of bytes the
  file write of a flush returns. After \<open>flushBufferToFile\<close> the buffer is \<open>b\<close> without its first
  \<open>w\<close> bytes, where a flush that does not get to the write (empty buffer, or no handle and
  the mount or the reopening fails) counts as having written 0 bytes. When the flush does
  write, the file's content grows by exactly the first \<open>w\<close> bytes of \<open>b\<close>, so file and buffer
  together hold every byte once. A flush of an empty buffer changes nothing at all.
\<close>

theorem flush_keeps_unwritten_suffix:
  assumes "file_write_ret e = w" and "w \<le> length b" and "fdr_write_buffer s = b"
  shows "fdr_write_buffer (flushBufferToFile e k s) =
           drop (if b \<noteq> [] \<and> (fdr_file s \<or> fst (ensureSpiffs e s) \<and> open_append_ok e)
                 then w else 0) b
         \<and> (b \<noteq> [] \<and> (fdr_file s \<or> fst (ensureSpiffs e s) \<and> open_append_ok e) \<longrightarrow>
              file_content (flushBufferToFile e k s) =
                file_content (if fdr_file s then s else snd (ensureSpiffs e s)) @ take w b)
         \<and> (b = [] \<longrightarrow> flushBufferToFile e k s = s)"
  using assms
  by (auto simp: flushBufferToFile_def ensureSpiffs_def openFdrFileForAppend_def file_content_def
      Let_def split: if_splits prod.splits option.splits)

text \<open>The theorem at a session with one buffered line: a write of 5 bytes, a write of 0
  bytes, and a flush of the empty buffer.\<close>

theorem flush_keeps_unwritten_suffix_witness:
  "fdr_write_buffer (flushBufferToFile (ex_fdr_env 1250 5 ex_line0) 1 ex_recording) = '',1013.25'' @ [CHR 0x0A]
   \<and> file_content (flushBufferToFile (ex_fdr_env 1250 5 ex_line0) 1 ex_recording) =
       FDR_HEADER @ CRLF @ ''0.000''
   \<and> fdr_write_buffer (flushBufferToFile (ex_fdr_env 1250 0 ex_line0) 1 ex_recording) = ex_line0
   \<and> flushBufferToFile (ex_fdr_env 1250 0 ex_line0) 1 ex_started = ex_started"
  using flush_keeps_unwritten_suffix [of "ex_fdr_env 1250 5 ex_line0" 5 ex_line0 ex_recording 1]
    flush_keeps_unwritten_suffix [of "ex_fdr_env 1250 0 ex_line0" 0 ex_line0 ex_recording 1]
    flush_keeps_unwritten_suffix [of "ex_fdr_env 1250 0 ex_line0" 0 "[]" ex_started 1]
  by (simp add: ex_recording_eq ex_started_eq ex_fdr_env_def ex_line0_def file_content_def)

subsection \<open>Normalising the sampling rate\<close>

text \<open>
  Claim C7. \<open>fdr_start\<close> with 0 samples per second does exactly what it does with 1, and
  with any rate above 50 exactly what it does with 50 (same result, same state). When the
  store mounts, the configured interval is 1000 for rate 0, 20 for every rate above 50, and
  the truncating quotient \<open>1000 div n\<close> for every rate \<open>n\<close> from 1 to 50, as 32-bit unsigned
  values and as numbers. (A start on a store that cannot be mounted returns before the
  rate is looked at and configures nothing.)
\<close>

theorem start_rate_normalised:
  "fdr_start e d 0 s = fdr_start e d 1 s
   \<and> (50 < n \<longrightarrow> fdr_start e d n s = fdr_start e d 50 s)
   \<and> (fst (ensureSpiffs e s) \<longrightarrow>
        fdr_sample_interval_ms (snd (fdr_start e d 0 s)) = 1000
        \<and> (50 < n \<longrightarrow> fdr_sample_interval_ms (snd (fdr_start e d n s)) = 20)
        \<and> (1 \<le> n \<and> n \<le> 50 \<longrightarrow>
             fdr_sample_interval_ms (snd (fdr_start e d n s)) = 1000 div n
             \<and> unat (fdr_sample_interval_ms (snd (fdr_start e d n s))) = 1000 div unat n))"
proof -
  have clamp0: "fdr_start e d 0 s = fdr_start e d 1 s"
    by (simp add: fdr_start_def Let_def MAX_SAMPLES_PER_SEC_def split: prod.splits bool.splits)
  have clamp_hi: "fdr_start e d n s = fdr_start e d 50 s" if "50 < n"
  proof -
    from that have "n \<noteq> 0" by auto
    with that show ?thesis
      by (simp add: fdr_start_def MAX_SAMPLES_PER_SEC_def Let_def split: prod.splits bool.splits)
  qed
  have interval: "fdr_sample_interval_ms (snd (fdr_start e d m s)) = 1000 div m"
    if mnt: "fst (ensureSpiffs e s)" and lo: "1 \<le> m" and hi: "m \<le> 50" for m
  proof -
    from lo have nz: "m \<noteq> 0" by auto
    from hi have le: "\<not> MAX_SAMPLES_PER_SEC < m" by (simp add: MAX_SAMPLES_PER_SEC_def not_less)
    obtain s1 where m1: "ensureSpiffs e s = (True, s1)"
      using mnt by (cases "ensureSpiffs e s") auto
    show ?thesis
      using nz le m1
      by (simp add: fdr_start_def openFdrFileForWrite_def Let_def split: option.splits prod.splits bool.splits)
  qed
  have i1: "fdr_sample_interval_ms (snd (fdr_start e d 1 s)) = 1000" if "fst (ensureSpiffs e s)"
    using interval[of 1] that by simp
  have i50: "fdr_sample_interval_ms (snd (fdr_start e d 50 s)) = 20" if "fst (ensureSpiffs e s)"
    using interval[of 50] that by simp
  have truncating: "unat (fdr_sample_interval_ms (snd (fdr_start e d n s))) = 1000 div unat n"
    if "fst (ensureSpiffs e s)" "1 \<le> n" "n \<le> 50"
    using interval[OF that] by (simp add: unat_div)
  show ?thesis
    using clamp0 clamp_hi interval truncating i1 i50 by simp
qed

text \<open>The theorem at rates 10, 3, 0 and 200, on a fresh recorder whose store mounts.\<close>

theorem start_rate_normalised_witness:
  "fdr_sample_interval_ms (snd (fdr_start (ex_fdr_env 1000 0 ex_line0) 10 10 fdr_boot)) = 100
   \<and> fdr_sample_interval_ms (snd (fdr_start (ex_fdr_env 1000 0 ex_line0) 10 3 fdr_boot)) = 333
   \<and> fdr_sample_interval_ms (snd (fdr_start (ex_fdr_env 1000 0 ex_line0) 10 0 fdr_boot)) = 1000
   \<and> fdr_sample_interval_ms (snd (fdr_start (ex_fdr_env 1000 0 ex_line0) 10 200 fdr_boot)) = 20
   \<and> fdr_start (ex_fdr_env 1000 0 ex_line0) 10 200 fdr_boot = fdr_start (ex_fdr_env 1000 0 ex_line0) 10 50 fdr_boot"
  using start_rate_normalised [of "ex_fdr_env 1000 0 ex_line0" 10 fdr_boot 10]
    start_rate_normalised [of "ex_fdr_env 1000 0 ex_line0" 10 fdr_boot 3]
    start_rate_normalised [of "ex_fdr_env 1000 0 ex_line0" 10 fdr_boot 200]
    start_rate_normalised [of "ex_fdr_env 1000 0 ex_line0" 10 fdr_boot 50]
  by (simp add: ensureSpiffs_def fdr_boot_def ex_fdr_env_def)

subsection \<open>Starting over an active session\<close>

text \<open>
  Claim C10. \<open>fdr_start\<close> returns true exactly when the mount and the creation of the file
  succeed, whatever the state before. Called while a session is active, with both
  succeeding, it leaves the recorder active under the new parameters, with an empty buffer
  and a file that holds the header line and nothing else: the earlier session is neither
  stopped nor flushed, its buffered bytes are gone and so is its file.
\<close>

theorem restart_while_active:
  "fst (fdr_start e d n s) = (fst (ensureSpiffs e s) \<and> open_write_ok e)
   \<and> (fdr_active s \<and> fst (ensureSpiffs e s) \<and> open_write_ok e \<longrightarrow>
        fst (fdr_start e d n s)
        \<and> fdr_active (snd (fdr_start e d n s))
        \<and> fdr_write_buffer (snd (fdr_start e d n s)) = []
        \<and> spiffs_fdr_csv (snd (fdr_start e d n s)) = Some (FDR_HEADER @ CRLF)
        \<and> fdr_file (snd (fdr_start e d n s))
        \<and> fdr_sample_interval_ms (snd (fdr_start e d n s)) =
             1000 div (if n = 0 then 1 else if 50 < n then 50 else n)
        \<and> fdr_start_ms (snd (fdr_start e d n s)) = millis e 1
        \<and> fdr_end_ms (snd (fdr_start e d n s)) = millis e 1 + d * 1000
        \<and> last_sample_ms (snd (fdr_start e d n s)) = 0
        \<and> last_flush_ms (snd (fdr_start e d n s)) = millis e 0)"
proof (cases rule: ensureSpiffs_cases[of e s])
  case (1 s1)
  then show ?thesis
    by (auto simp: fdr_start_def openFdrFileForWrite_def Let_def MAX_SAMPLES_PER_SEC_def
        split: option.splits)
next
  case (2 s1)
  then show ?thesis by (simp add: fdr_start_def)
qed

text \<open>The theorem at a session with one unflushed line, restarted at 5000 ms for 2 s at
  rate 0.\<close>

theorem restart_while_active_witness:
  "fdr_active ex_recording \<and> fdr_write_buffer ex_recording = ex_line0
   \<and> fst (fdr_start (ex_fdr_env 5000 0 ex_line0) 2 0 ex_recording)
   \<and> fdr_active (snd (fdr_start (ex_fdr_env 5000 0 ex_line0) 2 0 ex_recording))
   \<and> fdr_write_buffer (snd (fdr_start (ex_fdr_env 5000 0 ex_line0) 2 0 ex_recording)) = []
   \<and> spiffs_fdr_csv (snd (fdr_start (ex_fdr_env 5000 0 ex_line0) 2 0 ex_recording)) = Some (FDR_HEADER @ CRLF)
   \<and> fdr_sample_interval_ms (snd (fdr_start (ex_fdr_env 5000 0 ex_line0) 2 0 ex_recording)) = 1000
   \<and> fdr_end_ms (snd (fdr_start (ex_fdr_env 5000 0 ex_line0) 2 0 ex_recording)) = 7000"
  using restart_while_active [of "ex_fdr_env 5000 0 ex_line0" 2 0 ex_recording]
  by (simp add: ensureSpiffs_def ex_fdr_env_def ex_recording_eq)

subsection \<open>Exporting the file\<close>

text \<open>
  Claim C9. \<open>fdr_streamFile\<close> answers StorageUnavailable when the store does not mount,
  NoData when it mounts and holds no file, IoError when the file is there and cannot be
  opened for reading, and otherwise streams the whole file as it is after the flush that
  an active session with a non-empty buffer gets first. With the handle open that is the
  old content followed by the bytes the flush wrote; when the write is complete it is the
  old content followed by the whole buffer, and the buffer is empty afterwards.
\<close>

theorem export_results:
  "(\<not> fst (ensureSpiffs e s) \<longrightarrow> fst (fdr_streamFile e s) = Inl StorageUnavailable)
   \<and> (fst (ensureSpiffs e s) \<and> spiffs_fdr_csv (snd (ensureSpiffs e s)) = None \<longrightarrow>
        fst (fdr_streamFile e s) = Inl NoData)
   \<and> (fst (ensureSpiffs e s) \<and> spiffs_fdr_csv (snd (ensureSpiffs e s)) = Some c \<and> \<not> open_read_ok e \<longrightarrow>
        fst (fdr_streamFile e s) = Inl IoError)
   \<and> (fst (ensureSpiffs e s) \<and> spiffs_fdr_csv (snd (ensureSpiffs e s)) = Some c \<and> open_read_ok e \<longrightarrow>
        fst (fdr_streamFile e s) =
          Inr (file_content (if fdr_active s \<and> fdr_write_buffer s \<noteq> []
                             then flushBufferToFile e 0 (snd (ensureSpiffs e s))
                             else snd (ensureSpiffs e s))))
   \<and> (fst (ensureSpiffs e s) \<and> spiffs_fdr_csv (snd (ensureSpiffs e s)) = Some c \<and> open_read_ok e
        \<and> fdr_active s \<and> fdr_write_buffer s \<noteq> [] \<and> fdr_file s \<longrightarrow>
        fst (fdr_streamFile e s) = Inr (c @ take (file_write_ret e) (fdr_write_buffer s)))
   \<and> (fst (ensureSpiffs e s) \<and> spiffs_fdr_csv (snd (ensureSpiffs e s)) = Some c \<and> open_read_ok e
        \<and> fdr_active s \<and> fdr_write_buffer s \<noteq> [] \<and> fdr_file s
        \<and> file_write_ret e = length (fdr_write_buffer s) \<longrightarrow>
        fst (fdr_streamFile e s) = Inr (c @ fdr_write_buffer s)
        \<and> fdr_write_buffer (snd (fdr_streamFile e s)) = [])"
proof (cases rule: ensureSpiffs_cases[of e s])
  case (1 s1)
  have keep: "fdr_active s1 = fdr_active s" "fdr_write_buffer s1 = fdr_write_buffer s" "fdr_file s1 = fdr_file s"
    using ensureSpiffs_keeps[of e s] 1(3) by simp_all
  have mounted: "spiffs_mounted s1"
    using 1(1) by (auto simp: ensureSpiffs_def split: if_splits)
  have flushed: "spiffs_fdr_csv (flushBufferToFile e 0 s1) \<noteq> None" if "spiffs_fdr_csv s1 \<noteq> None"
    using that mounted by (auto simp: flushBufferToFile_def ensureSpiffs_def openFdrFileForAppend_def Let_def
        split: if_splits prod.splits bool.splits)
  have open_flush: "file_content (flushBufferToFile e 0 s1) = c @ take (file_write_ret e) (fdr_write_buffer s)"
    if "spiffs_fdr_csv s1 = Some c" "fdr_write_buffer s \<noteq> []" "fdr_file s"
    using that keep by (simp add: flushBufferToFile_def file_content_def Let_def)
  have open_flush_buf: "fdr_write_buffer (flushBufferToFile e 0 s1) = []"
    if "fdr_write_buffer s \<noteq> []" "fdr_file s" "file_write_ret e = length (fdr_write_buffer s)"
    using that keep by (simp add: flushBufferToFile_def file_content_def Let_def)
  show ?thesis
    using 1 keep flushed open_flush open_flush_buf
    by (auto simp: fdr_streamFile_def Let_def file_content_def split: option.splits)
next
  case (2 s1)
  then show ?thesis by (simp add: fdr_streamFile_def)
qed

text \<open>The theorem at a session with one unflushed line (complete write; read failure), and
  at a fresh recorder (no file; no mount).\<close>

theorem export_results_witness:
  "fst (fdr_streamFile (ex_fdr_env 1100 14 ex_line0) ex_recording) = Inr (FDR_HEADER @ CRLF @ ex_line0)
   \<and> fdr_write_buffer (snd (fdr_streamFile (ex_fdr_env 1100 14 ex_line0) ex_recording)) = []
   \<and> fst (fdr_streamFile (ex_fdr_env 1100 14 ex_line0) fdr_boot) = Inl NoData
   \<and> fst (fdr_streamFile ((ex_fdr_env 1100 14 ex_line0)\<lparr>spiffs_begin_plain := False, spiffs_begin_format := False\<rparr>) fdr_boot)
       = Inl StorageUnavailable
   \<and> fst (fdr_streamFile ((ex_fdr_env 1100 14 ex_line0)\<lparr>open_read_ok := False\<rparr>) ex_recording) = Inl IoError"
  using export_results [of "ex_fdr_env 1100 14 ex_line0" ex_recording "FDR_HEADER @ CRLF"]
    export_results [of "ex_fdr_env 1100 14 ex_line0" fdr_boot "[]"]
    export_results [of "(ex_fdr_env 1100 14 ex_line0)\<lparr>spiffs_begin_plain := False, spiffs_begin_format := False\<rparr>" fdr_boot "[]"]
    export_results [of "(ex_fdr_env 1100 14 ex_line0)\<lparr>open_read_ok := False\<rparr>" ex_recording "FDR_HEADER @ CRLF"]
  by (simp add: ensureSpiffs_def fdr_boot_def ex_fdr_env_def ex_recording_eq ex_line0_def
      flushBufferToFile_def file_content_def)

subsection \<open>A tick that finds the sensor not ready\<close>

text \<open>In general: a due tick of an active, unexpired session that finds the sensor not
  ready changes \<open>last_sample_ms\<close> to the current time and nothing else.\<close>

lemma skipped_tick_general:
  assumes "fdr_active s" and "\<not> fdr_end_ms s \<le> millis e 0"
    and "last_sample_ms s = 0 \<or> fdr_sample_interval_ms s \<le> millis e 0 - last_sample_ms s"
    and "\<not> barometer_isReady b"
  shows "fdr_process e b s = s\<lparr>last_sample_ms := millis e 0\<rparr>"
  using assms by (auto simp: fdr_process_def Let_def)

text \<open>
  Claim C2 says that a due tick which finds the sensor not ready leaves the time of the last
  accepted sample alone, so that later ticks are measured from the last accepted sample.
  The code assigns \<open>last_sample_ms = now\<close> before it asks \<open>barometer_isReady()\<close>. In the
  session below the last accepted sample is at 1000 ms and the interval is 100 ms. The
  cycle at 1100 ms finds the sensor scanning: it writes nothing, and moves \<open>last_sample_ms\<close>
  to 1100. The cycle at 1150 ms finds the sensor ready, 150 ms after the last accepted
  sample, and takes no sample, since only 50 ms have passed since the skipped tick.
\<close>

theorem skipped_tick_advances_last_sample:
  "fdr_active ex_recording
   \<and> last_sample_ms ex_recording = 1000
   \<and> fdr_sample_interval_ms ex_recording = 100
   \<and> \<not> barometer_isReady ex_baro_scanning
   \<and> fdr_process (ex_fdr_env 1100 0 ex_line0) ex_baro_scanning ex_recording
       = ex_recording\<lparr>last_sample_ms := 1100\<rparr>
   \<and> barometer_isReady ex_baro_ready
   \<and> (1150 :: u32) - last_sample_ms ex_recording \<ge> fdr_sample_interval_ms ex_recording
   \<and> fdr_process (ex_fdr_env 1150 0 ex_line0) ex_baro_ready (ex_recording\<lparr>last_sample_ms := 1100\<rparr>)
       = ex_recording\<lparr>last_sample_ms := 1100\<rparr>"
  by (simp add: ex_recording_eq ex_baro_scanning_eq ex_baro_ready_eq process_defs)

subsection \<open>A reset during a session\<close>

text \<open>
  Claim C8 says that from the start of a session until the recorder is idle again the file
  begins with the header line, also after a reset during the session. \<open>fdr_reset\<close> closes the
  handle and removes the file but leaves the session active; the next flush reopens the
  file for appending, which creates it without a header. Below, a session is started, reset
  at 1100 ms, and runs a cycle at 1300 ms: the file then holds the sample line alone.
\<close>

theorem reset_while_active_loses_header:
  "fdr_active (fdr_reset (ex_fdr_env 1100 0 ex_line0) ex_started)
   \<and> spiffs_fdr_csv (fdr_reset (ex_fdr_env 1100 0 ex_line0) ex_started) = None
   \<and> spiffs_fdr_csv (fdr_process (ex_fdr_env 1300 14 ex_line300) ex_baro_ready
         (fdr_reset (ex_fdr_env 1100 0 ex_line0) ex_started)) = Some ex_line300
   \<and> fdr_active (fdr_process (ex_fdr_env 1300 14 ex_line300) ex_baro_ready
         (fdr_reset (ex_fdr_env 1100 0 ex_line0) ex_started))
   \<and> \<not> prefix FDR_HEADER ex_line300"
  by (simp add: ex_started_eq ex_baro_ready_eq process_defs fdr_reset_def ensureSpiffs_def
      closeFdrFileIfOpen_def flushBufferToFile_def openFdrFileForAppend_def file_content_def
      ex_line300_def FDR_HEADER_def)

section \<open>Sensor acquisition\<close>

subsection \<open>The scan leaves filter and counter alone\<close>

lemma probePrimary_keeps_ema:
  "pressure_ema (fst (snd (snd (probePrimary e ch (s, tr))))) = pressure_ema s"
  by (simp add: probePrimary_def attemptBME280Init_def attemptBMP280Init_def readChipID_def
      split: option.splits)

lemma probePrimary_keeps_count:
  "bad_read_count (fst (snd (snd (probePrimary e ch (s, tr))))) = bad_read_count s"
  by (simp add: probePrimary_def attemptBME280Init_def attemptBMP280Init_def readChipID_def
      split: option.splits)

lemma scan_loop_keeps_ema:
  "pressure_ema (fst (snd (scan_loop e xs c ch st))) = pressure_ema (fst st)"
proof (induction xs arbitrary: c ch st)
  case Nil
  then show ?case by simp
next
  case (Cons i rest)
  obtain s tr where st: "st = (s, tr)" by (cases st)
  obtain brk ch1 s1 tr1 where pp: "probePrimary e ch (s, tr) = (brk, ch1, s1, tr1)"
    by (cases "probePrimary e ch (s, tr)") auto
  have keep: "pressure_ema s1 = pressure_ema s"
    using probePrimary_keeps_ema[of e ch s tr] pp by simp
  show ?case
    using Cons.IH keep by (simp add: st pp split: bool.splits)
qed

lemma scan_loop_keeps_count:
  "bad_read_count (fst (snd (scan_loop e xs c ch st))) = bad_read_count (fst st)"
proof (induction xs arbitrary: c ch st)
  case Nil
  then show ?case by simp
next
  case (Cons i rest)
  obtain s tr where st: "st = (s, tr)" by (cases st)
  obtain brk ch1 s1 tr1 where pp: "probePrimary e ch (s, tr) = (brk, ch1, s1, tr1)"
    by (cases "probePrimary e ch (s, tr)") auto
  have keep: "bad_read_count s1 = bad_read_count s"
    using probePrimary_keeps_count[of e ch s tr] pp by simp
  show ?case
    using Cons.IH keep by (simp add: st pp split: bool.splits)
qed

lemma scan_keeps_ema: "pressure_ema (fst (scanAndTryInit e s)) = pressure_ema s"
  using scan_loop_keeps_ema[of e "[1..<120]" 0 0 "(s, [])"]
  by (cases "scan_loop e [1..<120] 0 0 (s, [])") (simp add: scanAndTryInit_def)

lemma scan_keeps_count: "bad_read_count (fst (scanAndTryInit e s)) = bad_read_count s"
  using scan_loop_keeps_count[of e "[1..<120]" 0 0 "(s, [])"]
  by (cases "scan_loop e [1..<120] 0 0 (s, [])") (simp add: scanAndTryInit_def)

lemma process_scanning_keeps_ema:
  "\<not> bme_ok s \<Longrightarrow> pressure_ema (barometer_process e s) = pressure_ema s"
  by (simp add: barometer_process_def scan_keeps_ema)

lemma fsub_one_alpha: "fsub (Val 1) PRESSURE_EMA_ALPHA = Val 0.75"
  by (simp add: PRESSURE_EMA_ALPHA_def round32_values)

lemma raw_pressure_binary32: "read_raw_pressure e s = Val r \<Longrightarrow> round32 r = r"
  by (cases "bme_readPressure e"; cases "bmp_readPressure e")
     (auto simp: read_raw_pressure_def split: if_splits)

text \<open>A filter that holds no value takes the raw reading: the update that follows the
  initialisation gives the reading back, rounding included.\<close>

lemma seeded_update:
  assumes "round32 r = r"
  shows "fadd (fmul PRESSURE_EMA_ALPHA (Val r)) (fmul (fsub (Val 1) PRESSURE_EMA_ALPHA) (Val r)) = Val r"
proof -
  have "round32 (round32 (1 / 4 * r) + round32 (3 / 4 * r)) = r"
    by (rule seed_identity[OF assms])
  then show ?thesis
    by (simp add: fsub_one_alpha) (simp add: PRESSURE_EMA_ALPHA_def)
qed

lemma process_active_ema:
  assumes "bme_ok s"
  shows "pressure_ema (barometer_process e s) =
           (if isnan (pressure_ema s) then read_raw_pressure e s
            else fadd (fmul (Val 0.25) (read_raw_pressure e s)) (fmul (Val 0.75) (pressure_ema s)))"
proof -
  have step: "pressure_ema (barometer_process e s) =
      pressure_ema (updatePressureEMA (read_raw_pressure e s)
        (initializePressureEMA (read_raw_pressure e s) s))"
    using assms by (simp add: barometer_process_def Let_def)
  show ?thesis
  proof (cases "isnan (pressure_ema s)")
    case True
    show ?thesis
    proof (cases "read_raw_pressure e s")
      case NaN
      with True show ?thesis
        by (simp add: step initializePressureEMA_def updatePressureEMA_def)
    next
      case (Val r)
      from raw_pressure_binary32[OF Val] have "round32 r = r" .
      from seeded_update[OF this] True Val show ?thesis
        by (simp add: step initializePressureEMA_def updatePressureEMA_def)
    qed
  next
    case False
    then show ?thesis
      by (simp add: step initializePressureEMA_def updatePressureEMA_def fsub_one_alpha)
         (simp add: PRESSURE_EMA_ALPHA_def)
  qed
qed

lemma trace_chain: "ema_chain (pressure_ema s) (smoothing_trace s es)"
proof (induction es arbitrary: s)
  case Nil
  then show ?case by simp
next
  case (Cons e es)
  show ?case
  proof (cases "bme_ok s")
    case True
    show ?thesis
      using Cons.IH[of "barometer_process e s"] True process_active_ema[OF True, of e]
      by (simp only: smoothing_trace.simps ema_chain.simps if_True)
  next
    case False
    then show ?thesis
      using Cons.IH[of "barometer_process e s"] process_scanning_keeps_ema[of s e]
      by simp
  qed
qed

lemma chain_index:
  "ema_chain prev t \<Longrightarrow> 0 < i \<Longrightarrow> i < length t \<Longrightarrow>
     snd (t ! i) =
       (if isnan (snd (t ! (i - 1))) then fst (t ! i)
        else fadd (fmul (Val 0.25) (fst (t ! i))) (fmul (Val 0.75) (snd (t ! (i - 1)))))"
proof (induction t arbitrary: prev i)
  case Nil
  then show ?case by simp
next
  case (Cons x t)
  obtain raw sm where x: "x = (raw, sm)" by (cases x)
  from Cons.prems(1)[unfolded x ema_chain.simps]
  have tail: "ema_chain sm t" by blast
  show ?case
  proof (cases "i = 1")
    case True
    with Cons.prems obtain y t' where t: "t = y # t'" by (cases t) auto
    obtain raw1 sm1 where y: "y = (raw1, sm1)" by (cases y)
    from tail[unfolded t y ema_chain.simps] show ?thesis
      by (simp add: True t y x)
  next
    case False
    with Cons.prems have "0 < i - 1" "i - 1 < length t" by auto
    from Cons.IH[OF tail this] Cons.prems False show ?thesis
      by (cases i) (auto simp: nth_Cons')
  qed
qed

subsection \<open>The smoothing filter\<close>

lemma active_cycle_keeps_filter:
  assumes "bme_ok s" and "\<not> isnan (pressure_ema s)" and "\<not> isnan (read_raw_pressure e s)"
  shows "\<not> isnan (pressure_ema (barometer_process e s))"
proof -
  obtain r where r: "read_raw_pressure e s = Val r"
    using assms(3) by (cases "read_raw_pressure e s") simp_all
  obtain p where p: "pressure_ema s = Val p"
    using assms(2) by (cases "pressure_ema s") simp_all
  show ?thesis
    using process_active_ema[OF assms(1), of e] r p by simp
qed

text \<open>
  Claim C3 says that over every sequence of raw readings each output after the first is
  0.25 raw + 0.75 previous output. A reading can be NaN, and then the filter holds no value
  and \<open>initializePressureEMA\<close> seeds it again from the next reading. Below, the readings after
  a successful init are 1000 hPa, NaN and 1010 hPa: the sensor stays active, the third
  output is 1010, and the claimed value 0.25 * 1010 + 0.75 * NaN is NaN.
\<close>

theorem ema_restarts_after_nan:
  "smoothing_trace (barometer_init (ex_baro_env 20 100000) baro_boot)
     [ex_baro_env 20 100000, (ex_baro_env 20 0)\<lparr>bme_readPressure := NaN\<rparr>, ex_baro_env 20 101000]
     = [(Val 1000, Val 1000), (NaN, NaN), (Val 1010, Val 1010)]
   \<and> bme_ok (baro_run (barometer_init (ex_baro_env 20 100000) baro_boot)
       [ex_baro_env 20 100000, (ex_baro_env 20 0)\<lparr>bme_readPressure := NaN\<rparr>, ex_baro_env 20 101000])
   \<and> fadd (fmul (Val 0.25) (Val 1010)) (fmul (Val 0.75) NaN) = NaN
   \<and> Val 1010 \<noteq> fadd (fmul (Val 0.25) (Val 1010)) (fmul (Val 0.75) NaN)"
  by (simp add: barometer_process_def barometer_init_def baro_boot_def
      ex_baro_env_def BME280_ADDRESS_PRIMARY_def read_temperature_def read_raw_pressure_def
      initializePressureEMA_def updatePressureEMA_def PRESSURE_EMA_ALPHA_def
      validateSensorReadings_def fge_def TEMPERATURE_MIN_def TEMPERATURE_MAX_def
      PRESSURE_MIN_def PRESSURE_MAX_def BAD_READS_MAX_def Let_def round32_values)

text \<open>
  Claim C3, amended. Take any run of cycles from any state and list (raw, smoothed) for the
  cycles with a sensor active. An output equals its raw reading when the filter holds no
  value before the cycle: at the first reading of a filter never seeded, and at the reading
  after a NaN output. Every other output is 0.25 times its raw reading plus 0.75 times the
  output before it, each product and the sum rounded to binary32 as the code computes
  them. No active cycle is left out of the list, and a bus scan between two active cycles
  leaves the filter as it was.
\<close>

theorem ema_recurrence_or_restart:
  "(smoothing_trace s es \<noteq> [] \<longrightarrow>
      snd (smoothing_trace s es ! 0) =
        (if isnan (pressure_ema s) then fst (smoothing_trace s es ! 0)
         else fadd (fmul (Val 0.25) (fst (smoothing_trace s es ! 0)))
                   (fmul (Val 0.75) (pressure_ema s))))
   \<and> (\<forall>i. 0 < i \<and> i < length (smoothing_trace s es) \<longrightarrow>
        snd (smoothing_trace s es ! i) =
          (if isnan (snd (smoothing_trace s es ! (i - 1))) then fst (smoothing_trace s es ! i)
           else fadd (fmul (Val 0.25) (fst (smoothing_trace s es ! i)))
                     (fmul (Val 0.75) (snd (smoothing_trace s es ! (i - 1))))))"
proof -
  have chain: "ema_chain (pressure_ema s) (smoothing_trace s es)"
    by (rule trace_chain)
  have first: "snd (smoothing_trace s es ! 0) =
        (if isnan (pressure_ema s) then fst (smoothing_trace s es ! 0)
         else fadd (fmul (Val 0.25) (fst (smoothing_trace s es ! 0)))
                   (fmul (Val 0.75) (pressure_ema s)))"
    if "smoothing_trace s es \<noteq> []"
  proof -
    from that obtain x t where t: "smoothing_trace s es = x # t"
      by (cases "smoothing_trace s es") auto
    obtain raw sm where x: "x = (raw, sm)" by (cases x)
    from chain[unfolded t x ema_chain.simps] show ?thesis by (simp add: t x)
  qed
  show ?thesis
    using first chain_index[OF chain] by blast
qed

text \<open>The theorem at readings of 1000, 1010, NaN and 1010 hPa after a successful init.\<close>

theorem ema_recurrence_or_restart_witness:
  "isnan (pressure_ema (barometer_init (ex_baro_env 20 100000) baro_boot))
   \<and> smoothing_trace (barometer_init (ex_baro_env 20 100000) baro_boot)
        [ex_baro_env 20 100000, ex_baro_env 20 101000,
         (ex_baro_env 20 0)\<lparr>bme_readPressure := NaN\<rparr>, ex_baro_env 20 101000]
       = [(Val 1000, Val 1000), (Val 1010, Val 1002.5), (NaN, NaN), (Val 1010, Val 1010)]"
  using ema_recurrence_or_restart [of "barometer_init (ex_baro_env 20 100000) baro_boot"
      "[ex_baro_env 20 100000, ex_baro_env 20 101000,
        (ex_baro_env 20 0)\<lparr>bme_readPressure := NaN\<rparr>, ex_baro_env 20 101000]"]
  by (simp add: barometer_process_def barometer_init_def baro_boot_def
      ex_baro_env_def BME280_ADDRESS_PRIMARY_def read_temperature_def read_raw_pressure_def
      initializePressureEMA_def updatePressureEMA_def PRESSURE_EMA_ALPHA_def
      validateSensorReadings_def fge_def TEMPERATURE_MIN_def TEMPERATURE_MAX_def
      PRESSURE_MIN_def PRESSURE_MAX_def BAD_READS_MAX_def Let_def round32_values)

text \<open>
  Claim C4 says that an out-of-range first reading does not initialise the filter. The code
  calls \<open>initializePressureEMA\<close> with the raw reading before \<open>validateSensorReadings\<close> is
  asked. Below, the first reading after a successful init is 2000 hPa at 20 degrees: it is
  rejected by the validation (bad read 1), and the filter and the published pressure are
  2000 all the same.
\<close>

theorem out_of_range_reading_starts_filter:
  "bme_ok (barometer_init (ex_baro_env 20 200000) baro_boot)
   \<and> isnan (pressure_ema (barometer_init (ex_baro_env 20 200000) baro_boot))
   \<and> read_raw_pressure (ex_baro_env 20 200000) (barometer_init (ex_baro_env 20 200000) baro_boot) = Val 2000
   \<and> \<not> validateSensorReadings
         (read_temperature (ex_baro_env 20 200000) (barometer_init (ex_baro_env 20 200000) baro_boot))
         (read_raw_pressure (ex_baro_env 20 200000) (barometer_init (ex_baro_env 20 200000) baro_boot))
   \<and> pressure_ema (barometer_process (ex_baro_env 20 200000)
         (barometer_init (ex_baro_env 20 200000) baro_boot)) = Val 2000
   \<and> barometer_getPressure (barometer_process (ex_baro_env 20 200000)
         (barometer_init (ex_baro_env 20 200000) baro_boot)) = Val 2000
   \<and> bad_read_count (barometer_process (ex_baro_env 20 200000)
         (barometer_init (ex_baro_env 20 200000) baro_boot)) = 1"
  by (simp add: barometer_process_def barometer_init_def baro_boot_def
      ex_baro_env_def BME280_ADDRESS_PRIMARY_def read_temperature_def read_raw_pressure_def
      initializePressureEMA_def updatePressureEMA_def PRESSURE_EMA_ALPHA_def
      validateSensorReadings_def fge_def TEMPERATURE_MIN_def TEMPERATURE_MAX_def
      PRESSURE_MIN_def PRESSURE_MAX_def BAD_READS_MAX_def barometer_getPressure_def Let_def round32_values)

subsection \<open>The bad-read counter\<close>

lemma validate_iff_in_range: "validateSensorReadings t p = reading_in_range t p"
  by (cases t; cases p)
     (auto simp: validateSensorReadings_def reading_in_range_def fge_def TEMPERATURE_MIN_def
        TEMPERATURE_MAX_def PRESSURE_MIN_def PRESSURE_MAX_def)

lemma process_in_range:
  assumes "bme_ok s" and "cycle_in_range e s"
  shows "bme_ok (barometer_process e s)" and "bad_read_count (barometer_process e s) = 0"
    and "bmp_used (barometer_process e s) = bmp_used s"
  using assms
  by (simp_all add: barometer_process_def cycle_in_range_def validate_iff_in_range Let_def
      initializePressureEMA_def updatePressureEMA_def)

lemma process_out_of_range:
  assumes "bme_ok s" and "\<not> cycle_in_range e s" and "bad_read_count s + 1 < 3"
  shows "bme_ok (barometer_process e s)"
    and "bad_read_count (barometer_process e s) = bad_read_count s + 1"
    and "bmp_used (barometer_process e s) = bmp_used s"
  using assms
  by (simp_all add: barometer_process_def cycle_in_range_def validate_iff_in_range Let_def
      initializePressureEMA_def updatePressureEMA_def BAD_READS_MAX_def)

lemma process_out_of_range_last:
  assumes "bme_ok s" and "\<not> cycle_in_range e s" and "3 \<le> bad_read_count s + 1"
  shows "\<not> bme_ok (barometer_process e s)"
    and "bad_read_count (barometer_process e s) = 0"
    and "\<not> bmp_used (barometer_process e s)"
  using assms
  by (simp_all add: barometer_process_def cycle_in_range_def validate_iff_in_range Let_def
      initializePressureEMA_def updatePressureEMA_def BAD_READS_MAX_def)

text \<open>The counter stays within 0..2 between cycles, and is 0 whenever the module is
  scanning: a sensor that has just become active starts at 0.\<close>

lemma counter_invariant:
  assumes "0 \<le> bad_read_count s" and "bad_read_count s < 3"
    and "bme_ok s \<or> bad_read_count s = 0"
  shows "0 \<le> bad_read_count (barometer_process e s) \<and> bad_read_count (barometer_process e s) < 3
         \<and> (bme_ok (barometer_process e s) \<or> bad_read_count (barometer_process e s) = 0)"
proof (cases "bme_ok s")
  case True
  then show ?thesis
    using assms
    by (simp add: barometer_process_def Let_def initializePressureEMA_def updatePressureEMA_def
        BAD_READS_MAX_def)
next
  case False
  then show ?thesis
    using assms scan_keeps_count[of e s] by (simp add: barometer_process_def)
qed

text \<open>
  Claim C5. With a sensor active: a reading in range (temperature in [-40, 85], pressure in
  [300, 1100]) sets the counter to 0 and keeps the sensor active. Starting from counter 0,
  which is where an in-range reading or a fresh activation leaves it, three out-of-range
  readings in a row keep the sensor active after the first and second and, at the third,
  put the module back to scanning with no driver selected and the counter at 0; two
  out-of-range readings followed by one in range keep the sensor active throughout and
  end with the counter at 0.
\<close>

theorem bad_read_counter:
  "(bme_ok s \<and> cycle_in_range e s \<longrightarrow>
      bad_read_count (barometer_process e s) = 0 \<and> bme_ok (barometer_process e s))
   \<and> (bme_ok s \<and> bad_read_count s = 0 \<and> \<not> cycle_in_range e1 s
        \<and> \<not> cycle_in_range e2 (baro_run s [e1]) \<and> \<not> cycle_in_range e3 (baro_run s [e1, e2]) \<longrightarrow>
      bme_ok (baro_run s [e1]) \<and> bme_ok (baro_run s [e1, e2])
      \<and> \<not> bme_ok (baro_run s [e1, e2, e3]) \<and> \<not> bmp_used (baro_run s [e1, e2, e3])
      \<and> bad_read_count (baro_run s [e1, e2, e3]) = 0)
   \<and> (bme_ok s \<and> bad_read_count s = 0 \<and> \<not> cycle_in_range e1 s
        \<and> \<not> cycle_in_range e2 (baro_run s [e1]) \<and> cycle_in_range e3 (baro_run s [e1, e2]) \<longrightarrow>
      bme_ok (baro_run s [e1]) \<and> bme_ok (baro_run s [e1, e2])
      \<and> bme_ok (baro_run s [e1, e2, e3]) \<and> bad_read_count (baro_run s [e1, e2, e3]) = 0)"
proof -
  have two_bad: "bme_ok (barometer_process e1 s) \<and> bad_read_count (barometer_process e1 s) = 1
      \<and> bme_ok (barometer_process e2 (barometer_process e1 s))
      \<and> bad_read_count (barometer_process e2 (barometer_process e1 s)) = 2"
    if "bme_ok s" "bad_read_count s = 0" "\<not> cycle_in_range e1 s"
       "\<not> cycle_in_range e2 (barometer_process e1 s)"
  proof -
    have a: "bme_ok (barometer_process e1 s)" "bad_read_count (barometer_process e1 s) = 1"
      using process_out_of_range[of s e1] that by simp_all
    have b: "bme_ok (barometer_process e2 (barometer_process e1 s))"
      "bad_read_count (barometer_process e2 (barometer_process e1 s)) = 2"
      using process_out_of_range[of "barometer_process e1 s" e2] a that by simp_all
    from a b show ?thesis by simp
  qed
  have good: "bad_read_count (barometer_process e s) = 0 \<and> bme_ok (barometer_process e s)"
    if "bme_ok s" "cycle_in_range e s"
    using process_in_range[of s e] that by simp
  show ?thesis
  proof (intro conjI impI)
    assume "bme_ok s \<and> cycle_in_range e s"
    then show "bad_read_count (barometer_process e s) = 0" "bme_ok (barometer_process e s)"
      using good by simp_all
  next
    assume h: "bme_ok s \<and> bad_read_count s = 0 \<and> \<not> cycle_in_range e1 s
        \<and> \<not> cycle_in_range e2 (baro_run s [e1]) \<and> \<not> cycle_in_range e3 (baro_run s [e1, e2])"
    then have tb: "bme_ok (barometer_process e1 s)"
      "bme_ok (barometer_process e2 (barometer_process e1 s))"
      "bad_read_count (barometer_process e2 (barometer_process e1 s)) = 2"
      using two_bad by simp_all
    from h have bad3: "\<not> cycle_in_range e3 (barometer_process e2 (barometer_process e1 s))"
      by simp
    show "bme_ok (baro_run s [e1])" "bme_ok (baro_run s [e1, e2])"
      using tb by simp_all
    show "\<not> bme_ok (baro_run s [e1, e2, e3])" "\<not> bmp_used (baro_run s [e1, e2, e3])"
      "bad_read_count (baro_run s [e1, e2, e3]) = 0"
      using process_out_of_range_last[of "barometer_process e2 (barometer_process e1 s)" e3] tb bad3
      by simp_all
  next
    assume h: "bme_ok s \<and> bad_read_count s = 0 \<and> \<not> cycle_in_range e1 s
        \<and> \<not> cycle_in_range e2 (baro_run s [e1]) \<and> cycle_in_range e3 (baro_run s [e1, e2])"
    then have tb: "bme_ok (barometer_process e1 s)"
      "bme_ok (barometer_process e2 (barometer_process e1 s))"
      using two_bad by simp_all
    from h have good3: "cycle_in_range e3 (barometer_process e2 (barometer_process e1 s))"
      by simp
    show "bme_ok (baro_run s [e1])" "bme_ok (baro_run s [e1, e2])"
      using tb by simp_all
    show "bme_ok (baro_run s [e1, e2, e3])" "bad_read_count (baro_run s [e1, e2, e3]) = 0"
      using process_in_range[of "barometer_process e2 (barometer_process e1 s)" e3] tb good3
      by simp_all
  qed
qed

text \<open>The theorem at an active sensor: 2000 hPa and 90 degrees are out of range,
  1013.25 hPa at 20 degrees is in range.\<close>

theorem bad_read_counter_witness:
  "bme_ok ex_baro_ready \<and> bad_read_count ex_baro_ready = 0
   \<and> cycle_in_range (ex_baro_env 20 101325) ex_baro_ready
   \<and> \<not> cycle_in_range (ex_baro_env 20 200000) ex_baro_ready
   \<and> bad_read_count (baro_run ex_baro_ready [ex_baro_env 20 101325]) = 0
   \<and> bme_ok (baro_run ex_baro_ready [ex_baro_env 20 200000, ex_baro_env 90 101325])
   \<and> \<not> bme_ok (baro_run ex_baro_ready [ex_baro_env 20 200000, ex_baro_env 90 101325, ex_baro_env 20 200000])
   \<and> bad_read_count (baro_run ex_baro_ready [ex_baro_env 20 200000, ex_baro_env 90 101325, ex_baro_env 20 200000]) = 0
   \<and> bme_ok (baro_run ex_baro_ready [ex_baro_env 20 200000, ex_baro_env 90 101325, ex_baro_env 20 101325])
   \<and> bad_read_count (baro_run ex_baro_ready [ex_baro_env 20 200000, ex_baro_env 90 101325, ex_baro_env 20 101325]) = 0"
  using bad_read_counter [of ex_baro_ready "ex_baro_env 20 101325" "ex_baro_env 20 200000"
      "ex_baro_env 90 101325" "ex_baro_env 20 200000"]
    bad_read_counter [of ex_baro_ready "ex_baro_env 20 101325" "ex_baro_env 20 200000"
      "ex_baro_env 90 101325" "ex_baro_env 20 101325"]
  by (simp add: ex_baro_ready_eq cycle_in_range_def reading_in_range_def read_temperature_def
      read_raw_pressure_def ex_baro_env_def barometer_process_def initializePressureEMA_def
      updatePressureEMA_def validate_iff_in_range PRESSURE_EMA_ALPHA_def BAD_READS_MAX_def Let_def round32_values)

subsection \<open>The probe order at the primary address\<close>

lemma scan_loop_skip:
  "BME280_ADDRESS_PRIMARY \<notin> set xs \<Longrightarrow>
     scan_loop e (xs @ ys) c ch st = scan_loop e ys (c + length (filter (i2c_ack e) xs)) ch st"
  by (induction xs arbitrary: c) auto

lemma scan_loop_rest:
  "BME280_ADDRESS_PRIMARY \<notin> set xs \<Longrightarrow> snd (scan_loop e xs c ch st) = st"
  using scan_loop_skip[of xs e "[]" c ch st] by simp

lemma addresses_split: "[1..<120] = [1..<118] @ BME280_ADDRESS_PRIMARY # [119]"
proof -
  have "[1..<120] = [1..<118] @ [118..<120]"
    using upt_add_eq_append[of 1 118 2] by simp
  moreover have "[118..<120] = [118, 119::nat]"
    by (simp add: upt_rec)
  ultimately show ?thesis by (simp add: BME280_ADDRESS_PRIMARY_def del: upt_rec_numeral)
qed

lemma primary_not_before: "BME280_ADDRESS_PRIMARY \<notin> set [1..<118]"
  by (simp add: BME280_ADDRESS_PRIMARY_def del: upt_rec_numeral)

lemma primary_not_after: "BME280_ADDRESS_PRIMARY \<notin> set [119]"
  by (simp add: BME280_ADDRESS_PRIMARY_def)

lemma scan_at_primary:
  assumes "i2c_ack e BME280_ADDRESS_PRIMARY" and "\<not> bme_ok s"
  shows "snd (scan_loop e [1..<120] 0 0 (s, [])) = snd (snd (probePrimary e 0 (s, [])))"
proof -
  let ?c = "0 + length (filter (i2c_ack e) [1..<118])"
  have "scan_loop e [1..<120] 0 0 (s, []) =
          scan_loop e (BME280_ADDRESS_PRIMARY # [119]) ?c 0 (s, [])"
    unfolding addresses_split by (rule scan_loop_skip[OF primary_not_before])
  moreover obtain brk ch1 st1 where pp: "probePrimary e 0 (s, []) = (brk, ch1, st1)"
    by (cases "probePrimary e 0 (s, [])") auto
  moreover have "snd (scan_loop e (BME280_ADDRESS_PRIMARY # [119]) ?c 0 (s, [])) = st1"
  proof (cases brk)
    case True
    with assms pp show ?thesis by simp
  next
    case False
    with assms pp have "scan_loop e (BME280_ADDRESS_PRIMARY # [119]) ?c 0 (s, []) =
        scan_loop e [119] (?c + 1) ch1 st1"
      by simp
    then show ?thesis using scan_loop_rest[OF primary_not_after] by simp
  qed
  ultimately show ?thesis by simp
qed

lemma probePrimary_trace:
  "snd (snd (snd (probePrimary e 0 (s, [])))) = upto_first_success (primary_probe_steps e)"
  by (simp add: probePrimary_def attemptBME280Init_def attemptBMP280Init_def readChipID_def
      primary_probe_steps_def BME280_CHIP_ID_def split: option.splits)

lemma probePrimary_state:
  "fst (snd (snd (probePrimary e 0 (s, [])))) =
     (if bme_begin e 0 BME280_ADDRESS_PRIMARY \<or> bme_begin e 1 BME280_ADDRESS_PRIMARY
           \<or> bme_begin e 2 BME280_ADDRESS_SECONDARY
      then s\<lparr>bme_ok := True, bmp_used := False\<rparr>
      else if chip_id_reg e BME280_ADDRESS_PRIMARY = Some BME280_CHIP_ID
              \<and> bmp_begin e BME280_ADDRESS_PRIMARY
           then s\<lparr>bme_ok := True, bmp_used := True\<rparr>
           else s)"
  by (simp add: probePrimary_def attemptBME280Init_def attemptBMP280Init_def readChipID_def
      BME280_CHIP_ID_def split: option.splits)

text \<open>
  Claim C6. When the module is not active and the primary address answers the scan, the
  probes made are exactly the specification's steps up to and including the first that
  succeeds: BME280 driver at 0x76, identity read, BME280 driver at 0x76 again, BME280
  driver at 0x77, and the BMP280 driver at 0x76 only when the identity register holds
  0x58. The module ends active exactly when a step succeeded, with the BME280 driver when
  one of its three attempts did, with the BMP280 driver when those three failed, the
  identity matched and the BMP280 attempt succeeded; in that case all five probes were
  made, in that order.
\<close>

theorem scan_probe_order:
  assumes "i2c_ack e BME280_ADDRESS_PRIMARY" and "\<not> bme_ok s"
  shows "snd (scanAndTryInit e s) = upto_first_success (primary_probe_steps e)
         \<and> bme_ok (fst (scanAndTryInit e s)) = list_ex snd (primary_probe_steps e)
         \<and> (bme_ok (fst (scanAndTryInit e s)) \<and> \<not> bmp_used (fst (scanAndTryInit e s))) =
             (bme_begin e 0 BME280_ADDRESS_PRIMARY \<or> bme_begin e 1 BME280_ADDRESS_PRIMARY
              \<or> bme_begin e 2 BME280_ADDRESS_SECONDARY)
         \<and> (bme_ok (fst (scanAndTryInit e s)) \<and> bmp_used (fst (scanAndTryInit e s))) =
             (\<not> bme_begin e 0 BME280_ADDRESS_PRIMARY \<and> \<not> bme_begin e 1 BME280_ADDRESS_PRIMARY
              \<and> \<not> bme_begin e 2 BME280_ADDRESS_SECONDARY
              \<and> chip_id_reg e BME280_ADDRESS_PRIMARY = Some BME280_CHIP_ID
              \<and> bmp_begin e BME280_ADDRESS_PRIMARY)
         \<and> (\<not> bme_begin e 0 BME280_ADDRESS_PRIMARY \<and> \<not> bme_begin e 1 BME280_ADDRESS_PRIMARY
              \<and> \<not> bme_begin e 2 BME280_ADDRESS_SECONDARY
              \<and> chip_id_reg e BME280_ADDRESS_PRIMARY = Some BME280_CHIP_ID
              \<and> bmp_begin e BME280_ADDRESS_PRIMARY \<longrightarrow>
             snd (scanAndTryInit e s) =
               [BME280_at BME280_ADDRESS_PRIMARY, ChipID_at BME280_ADDRESS_PRIMARY,
                BME280_at BME280_ADDRESS_PRIMARY, BME280_at BME280_ADDRESS_SECONDARY,
                BMP280_at BME280_ADDRESS_PRIMARY]
             \<and> bme_ok (fst (scanAndTryInit e s)) \<and> bmp_used (fst (scanAndTryInit e s)))"
proof -
  obtain c s1 tr where sl: "scan_loop e [1..<120] 0 0 (s, []) = (c, s1, tr)"
    by (cases "scan_loop e [1..<120] 0 0 (s, [])") auto
  have res: "scanAndTryInit e s = (s1\<lparr>deviceCount := c\<rparr>, tr)"
    unfolding scanAndTryInit_def sl by simp
  from scan_at_primary[OF assms] sl
  have st: "(s1, tr) = snd (snd (probePrimary e 0 (s, [])))" by simp
  have tr: "tr = upto_first_success (primary_probe_steps e)"
    using probePrimary_trace[of e s] st[symmetric] by simp
  have s1: "s1 = (if bme_begin e 0 BME280_ADDRESS_PRIMARY \<or> bme_begin e 1 BME280_ADDRESS_PRIMARY
           \<or> bme_begin e 2 BME280_ADDRESS_SECONDARY
      then s\<lparr>bme_ok := True, bmp_used := False\<rparr>
      else if chip_id_reg e BME280_ADDRESS_PRIMARY = Some BME280_CHIP_ID
              \<and> bmp_begin e BME280_ADDRESS_PRIMARY
           then s\<lparr>bme_ok := True, bmp_used := True\<rparr>
           else s)"
    using probePrimary_state[of e s] st[symmetric] by simp
  show ?thesis
    unfolding res using assms(2)
    by (auto simp: tr s1 primary_probe_steps_def)
qed

text \<open>The theorem on a bus where only the fallback driver starts, and on one where the
  first attempt succeeds.\<close>

theorem scan_probe_order_witness:
  "i2c_ack ex_bus_fallback BME280_ADDRESS_PRIMARY \<and> \<not> bme_ok baro_boot
   \<and> snd (scanAndTryInit ex_bus_fallback baro_boot) =
        [BME280_at 0x76, ChipID_at 0x76, BME280_at 0x76, BME280_at 0x77, BMP280_at 0x76]
   \<and> bme_ok (fst (scanAndTryInit ex_bus_fallback baro_boot))
   \<and> bmp_used (fst (scanAndTryInit ex_bus_fallback baro_boot))
   \<and> snd (scanAndTryInit (ex_baro_env 20 101325) baro_boot) = [BME280_at 0x76]
   \<and> \<not> bmp_used (fst (scanAndTryInit (ex_baro_env 20 101325) baro_boot))"
  using scan_probe_order [of ex_bus_fallback baro_boot]
    scan_probe_order [of "ex_baro_env 20 101325" baro_boot]
  by (simp add: ex_bus_fallback_def ex_baro_env_def baro_boot_def BME280_ADDRESS_PRIMARY_def
      BME280_ADDRESS_SECONDARY_def BME280_CHIP_ID_def primary_probe_steps_def)

end
